theory Spec2Isabelle
  imports Main "HOL-Library.Word" "HOL-Library.AList"
begin

section \<open>The self-refreshing cache of the HTTP client\<close>

text \<open>
  A shallow embedding of \<^verbatim>\<open>CachedClient\<close>: \<^verbatim>\<open>SetupCachedEndpoint\<close>,
  \<^verbatim>\<open>updateCache\<close>, \<^verbatim>\<open>GetCached\<close>, \<^verbatim>\<open>GetCachedOrFetch\<close>,
  \<^verbatim>\<open>StopCacheUpdates\<close> and \<^verbatim>\<open>Stop\<close>. The client is a record that every
  operation takes and returns. What the code obtains from outside the repository (the
  HTTP round trip, \<^verbatim>\<open>json.Unmarshal\<close>, \<^verbatim>\<open>time.ParseDuration\<close>, the parser of
  the cron library) is a parameter, collected in the record \<open>env\<close>.
\<close>

subsection \<open>Time\<close>

text \<open>
  A \<^verbatim>\<open>time.Time\<close> is the number of nanoseconds elapsed since the zero Time
  (January 1, year 1, UTC), so \<^verbatim>\<open>time.Time{}\<close> is 0. A \<^verbatim>\<open>time.Duration\<close>
  is a signed 64-bit count of nanoseconds, read with \<open>sint\<close>.
\<close>

type_synonym instant = int
type_synonym duration = "64 word"

definition maxDuration :: int where
  "maxDuration = 9223372036854775807"

definition minDuration :: int where
  "minDuration = - 9223372036854775808"

definition Minute :: int where
  "Minute = 60000000000"

text \<open>
  \<^verbatim>\<open>t.Sub(u)\<close>: the difference as a Duration; the library documents that a
  difference outside the range of Duration gives the maximum (or minimum) Duration.
\<close>

definition Sub :: "instant \<Rightarrow> instant \<Rightarrow> int" where
  "Sub t u =
     (let d = t - u
      in if maxDuration < d then maxDuration
         else if d < minDuration then minDuration
         else d)"

definition IsZero :: "instant \<Rightarrow> bool" where
  "IsZero t \<longleftrightarrow> t = 0"

subsection \<open>Data\<close>

type_synonym path = string
type_synonym addr = nat
type_synonym chan = nat

text \<open>
  \<^verbatim>\<open>result interface{}\<close> is the caller's pointer to the object that
  \<^verbatim>\<open>json.Unmarshal\<close> fills; it is an address, and the objects live in the
  \<open>heap\<close> of the state. \<^verbatim>\<open>CacheEntry.Data\<close> holds that same pointer.
\<close>

record CacheConfig =
  Path :: path
  CronSpec :: string
  Expiration :: duration
  SkipInitialFetch :: bool

record CacheEntry =
  Data :: addr
  UpdatedAt :: instant
  Expiration :: duration

text \<open>
  The context a request is issued under: the one the caller passed, or the one
  \<^verbatim>\<open>updateFunc\<close> makes with
  \<^verbatim>\<open>context.WithTimeout(context.Background(), 10*time.Second)\<close>.
\<close>

datatype ctx = Caller nat | BackgroundTimeout10s

text \<open>The errors the cache builds with \<^verbatim>\<open>fmt.Errorf\<close>, one constructor for each message.\<close>

datatype error =
    FailedToFetchData
  | UnexpectedStatusCode nat
  | FailedToReadBody
  | FailedToUnmarshal
  | InitialCacheUpdateFailed error
  | InvalidDurationInEvery
  | FailedToSchedule
  | NoCacheEntry path
  | FailedToFetchFreshData error
  | CacheExpired path

datatype 'a outcome = Return 'a | Panic

text \<open>
  What \<^verbatim>\<open>c.Get\<close> and \<^verbatim>\<open>io.ReadAll\<close> give: a transport error (a cancelled or
  expired context is one), or a response with its status code and its body, \<open>None\<close>
  when reading the body fails.
\<close>

datatype 'b reply = TransportError | Response nat "'b option"

text \<open>
  The closure \<^verbatim>\<open>updateFunc\<close> captures \<^verbatim>\<open>stopChan\<close>, \<^verbatim>\<open>config.Path\<close> and
  \<^verbatim>\<open>result\<close>.
\<close>

record job =
  j_stop :: chan
  j_path :: path
  j_result :: addr

text \<open>
  A \<^verbatim>\<open>time.Ticker\<close> together with the goroutine that
  \<^verbatim>\<open>SetupCachedEndpoint\<close> starts on it.
\<close>

record tick_task =
  tk_period :: duration
  tk_stopped :: bool
  tk_exited :: bool
  tk_job :: job

text \<open>
  The client. \<open>cache\<close>, \<open>stopChans\<close> and \<open>ticker\<close> are the three maps of the
  struct (the last two are association lists, because \<^verbatim>\<open>Stop\<close> ranges over them);
  \<open>cronEntries\<close> and \<open>cronRunning\<close> are the state of \<^verbatim>\<open>c.cron\<close>. The rest is
  the world the client acts on: the objects behind the result pointers, the channels made
  so far and which of them are closed, the tickers and their goroutines, the clock, the
  requests sent and the lines printed.
\<close>

record 'v CachedClient =
  cache :: "path \<rightharpoonup> CacheEntry"
  stopChans :: "(path \<times> chan) list"
  ticker :: "(path \<times> nat) list"
  cronEntries :: "job list"
  cronRunning :: bool
  heap :: "addr \<Rightarrow> 'v"
  nextChan :: chan
  closed :: "chan \<Rightarrow> bool"
  tickTasks :: "tick_task list"
  clock :: instant
  requests :: "(ctx \<times> path) list"
  printed :: "(path \<times> error) list"

text \<open>
  The collaborators. \<open>transport n ctx p\<close> is the answer to the request number \<open>n\<close>
  (counted from 0) and \<open>latency n\<close> the nanoseconds it takes.
  \<open>unmarshal b v\<close> is \<^verbatim>\<open>json.Unmarshal(b, result)\<close> on a destination that holds
  \<open>v\<close>: what the destination holds afterwards, and whether an error is returned
  (the library documents that on a value of the wrong type it "skips that field and
  completes the unmarshaling as best it can" and then returns the error, so a failed
  call may have written). \<open>parseDuration\<close> is \<^verbatim>\<open>time.ParseDuration\<close> and
  \<open>cronParse\<close> says whether the parser of \<^verbatim>\<open>cron.AddFunc\<close> accepts a spec.
\<close>

record ('b, 'v) env =
  transport :: "nat \<Rightarrow> ctx \<Rightarrow> path \<Rightarrow> 'b reply"
  latency :: "nat \<Rightarrow> nat"
  unmarshal :: "'b \<Rightarrow> 'v \<Rightarrow> 'v \<times> bool"
  parseDuration :: "string \<Rightarrow> duration option"
  cronParse :: "string \<Rightarrow> bool"

definition NewCachedClient :: "(addr \<Rightarrow> 'v) \<Rightarrow> instant \<Rightarrow> 'v CachedClient" where
  "NewCachedClient h now =
     \<lparr>cache = Map.empty, stopChans = [], ticker = [], cronEntries = [],
      cronRunning = False, heap = h, nextChan = 0, closed = (\<lambda>_. False),
      tickTasks = [], clock = now, requests = [], printed = []\<rparr>"

definition Since :: "'v CachedClient \<Rightarrow> instant \<Rightarrow> int" where
  "Since c t = Sub (clock c) t"

subsection \<open>updateCache\<close>

text \<open>
  One request under \<open>ctx\<close>; the clock advances by the time the request takes. The
  destination is written by \<^verbatim>\<open>json.Unmarshal\<close> before the lock is taken; under the
  lock, and only when every step succeeded and the entry exists, \<^verbatim>\<open>Data\<close> and
  \<^verbatim>\<open>UpdatedAt\<close> are assigned.
\<close>

definition storeResult :: "path \<Rightarrow> addr \<Rightarrow> 'v CachedClient \<Rightarrow> 'v CachedClient" where
  "storeResult p result c =
     (case cache c p of
        None \<Rightarrow> c
      | Some entry \<Rightarrow>
          c\<lparr>cache := (cache c)(p \<mapsto> entry\<lparr>Data := result, UpdatedAt := clock c\<rparr>)\<rparr>)"

definition updateCache ::
  "('b, 'v) env \<Rightarrow> ctx \<Rightarrow> path \<Rightarrow> addr \<Rightarrow> 'v CachedClient \<Rightarrow> error option \<times> 'v CachedClient"
where
  "updateCache E ctx p result c =
     (let n = length (requests c);
          c1 = c\<lparr>requests := requests c @ [(ctx, p)],
                 clock := clock c + int (latency E n)\<rparr>
      in case transport E n ctx p of
           TransportError \<Rightarrow> (Some FailedToFetchData, c1)
         | Response status body \<Rightarrow>
             if status \<noteq> 200 then (Some (UnexpectedStatusCode status), c1)
             else (case body of
                     None \<Rightarrow> (Some FailedToReadBody, c1)
                   | Some b \<Rightarrow>
                       (let (v, err) = unmarshal E b (heap c1 result);
                            c2 = c1\<lparr>heap := (heap c1)(result := v)\<rparr>
                        in if err then (Some FailedToUnmarshal, c2)
                           else (None, storeResult p result c2))))"

subsection \<open>GetCachedOrFetch and GetCached\<close>

text \<open>
  Both return the pair of the source: the pointer held in \<^verbatim>\<open>Data\<close> (\<open>None\<close> for
  \<^verbatim>\<open>nil\<close>) and the error (\<open>None\<close> for \<^verbatim>\<open>nil\<close>). After a refresh
  \<^verbatim>\<open>GetCachedOrFetch\<close> reads the map again; a missing key there would give a nil
  entry, and \<^verbatim>\<open>entry.Data\<close> would panic.
\<close>

definition needsFetch :: "'v CachedClient \<Rightarrow> CacheEntry \<Rightarrow> bool" where
  "needsFetch c entry \<longleftrightarrow>
     IsZero (UpdatedAt entry) \<or> sint (CacheEntry.Expiration entry) < Since c (UpdatedAt entry)"

definition GetCachedOrFetch ::
  "('b, 'v) env \<Rightarrow> ctx \<Rightarrow> path \<Rightarrow> 'v CachedClient
     \<Rightarrow> (addr option \<times> error option) outcome \<times> 'v CachedClient"
where
  "GetCachedOrFetch E ctx p c =
     (case cache c p of
        None \<Rightarrow> (Return (None, Some (NoCacheEntry p)), c)
      | Some entry \<Rightarrow>
          if needsFetch c entry then
            (case updateCache E ctx p (Data entry) c of
               (Some err, c') \<Rightarrow> (Return (None, Some (FailedToFetchFreshData err)), c')
             | (None, c') \<Rightarrow>
                 (case cache c' p of
                    None \<Rightarrow> (Panic, c')
                  | Some entry' \<Rightarrow> (Return (Some (Data entry'), None), c')))
          else (Return (Some (Data entry), None), c))"

definition GetCached :: "path \<Rightarrow> 'v CachedClient \<Rightarrow> addr option \<times> error option" where
  "GetCached p c =
     (case cache c p of
        None \<Rightarrow> (None, Some (NoCacheEntry p))
      | Some entry \<Rightarrow>
          if sint (CacheEntry.Expiration entry) < Since c (UpdatedAt entry)
          then (Some (Data entry), Some (CacheExpired p))
          else (Some (Data entry), None))"

subsection \<open>SetupCachedEndpoint\<close>

definition HasPrefix :: "string \<Rightarrow> string \<Rightarrow> bool" where
  "HasPrefix s prefix \<longleftrightarrow> take (length prefix) s = prefix"

definition TrimPrefix :: "string \<Rightarrow> string \<Rightarrow> string" where
  "TrimPrefix s prefix = (if HasPrefix s prefix then drop (length prefix) s else s)"

text \<open>
  \<^verbatim>\<open>updateFunc\<close>: nothing when the stop channel is closed; otherwise one refresh under
  a context of its own, whose error is printed and goes nowhere else.
\<close>

definition updateFunc :: "('b, 'v) env \<Rightarrow> job \<Rightarrow> 'v CachedClient \<Rightarrow> 'v CachedClient" where
  "updateFunc E j c =
     (if closed c (j_stop j) then c
      else (case updateCache E BackgroundTimeout10s (j_path j) (j_result j) c of
              (None, c') \<Rightarrow> c'
            | (Some err, c') \<Rightarrow> c'\<lparr>printed := printed c' @ [(j_path j, err)]\<rparr>))"

text \<open>
  \<^verbatim>\<open>c.cron.AddFunc(config.CronSpec, updateFunc)\<close> followed by \<^verbatim>\<open>c.cron.Start()\<close>:
  the parser of the cron library accepts the spec or not.
\<close>

definition cronSchedule ::
  "('b, 'v) env \<Rightarrow> string \<Rightarrow> job \<Rightarrow> 'v CachedClient \<Rightarrow> error option outcome \<times> 'v CachedClient"
where
  "cronSchedule E spec j c =
     (if cronParse E spec
      then (Return None, c\<lparr>cronEntries := cronEntries c @ [j], cronRunning := True\<rparr>)
      else (Return (Some FailedToSchedule), c))"

text \<open>
  The scheduling half of \<^verbatim>\<open>SetupCachedEndpoint\<close> (from
  \<^verbatim>\<open>strings.HasPrefix(config.CronSpec, "@every ")\<close> on).
  \<^verbatim>\<open>time.NewTicker(d)\<close> panics when \<open>d\<close> is not positive (so the library
  documents); otherwise the ticker and its goroutine are new, and the ticker is stored
  in \<^verbatim>\<open>c.ticker\<close>.
\<close>

definition scheduleUpdates ::
  "('b, 'v) env \<Rightarrow> string \<Rightarrow> job \<Rightarrow> 'v CachedClient \<Rightarrow> error option outcome \<times> 'v CachedClient"
where
  "scheduleUpdates E spec j c =
     (if HasPrefix spec ''@every '' then
        (case parseDuration E (TrimPrefix spec ''@every '') of
           None \<Rightarrow> (Return (Some InvalidDurationInEvery), c)
         | Some d \<Rightarrow>
             if sint d < Minute then
               (if sint d \<le> 0 then (Panic, c)
                else (Return None,
                      c\<lparr>ticker := AList.update (j_path j) (length (tickTasks c)) (ticker c),
                        tickTasks := tickTasks c @
                          [\<lparr>tk_period = d, tk_stopped = False, tk_exited = False, tk_job = j\<rparr>]\<rparr>))
             else cronSchedule E spec j c)
      else cronSchedule E spec j c)"

text \<open>
  The first half of \<^verbatim>\<open>SetupCachedEndpoint\<close>: the entry is stored with the zero time,
  a channel is made and stored in \<^verbatim>\<open>c.stopChans\<close> (an earlier channel of the same
  path is overwritten there, not closed).
\<close>

definition registerEntry :: "CacheConfig \<Rightarrow> addr \<Rightarrow> 'v CachedClient \<Rightarrow> 'v CachedClient" where
  "registerEntry config result c =
     c\<lparr>cache := (cache c)(Path config \<mapsto>
            \<lparr>Data = result, UpdatedAt = 0, Expiration = CacheConfig.Expiration config\<rparr>),
       nextChan := Suc (nextChan c),
       stopChans := AList.update (Path config) (nextChan c) (stopChans c)\<rparr>"

definition SetupCachedEndpoint ::
  "('b, 'v) env \<Rightarrow> ctx \<Rightarrow> CacheConfig \<Rightarrow> addr \<Rightarrow> 'v CachedClient
     \<Rightarrow> error option outcome \<times> 'v CachedClient"
where
  "SetupCachedEndpoint E cx config result c =
     (let stopChan = nextChan c;
          c2 = registerEntry config result c;
          j = \<lparr>j_stop = stopChan, j_path = Path config, j_result = result\<rparr>
      in if \<not> SkipInitialFetch config then
           (case updateCache E cx (Path config) result c2 of
              (Some err, c3) \<Rightarrow> (Return (Some (InitialCacheUpdateFailed err)), c3)
            | (None, c3) \<Rightarrow> scheduleUpdates E (CronSpec config) j c3)
         else scheduleUpdates E (CronSpec config) j c2)"

subsection \<open>StopCacheUpdates and Stop\<close>

text \<open>\<^verbatim>\<open>close\<close> of a channel that is closed already panics.\<close>

definition StopCacheUpdates :: "path \<Rightarrow> 'v CachedClient \<Rightarrow> unit outcome \<times> 'v CachedClient" where
  "StopCacheUpdates p c =
     (case map_of (stopChans c) p of
        None \<Rightarrow> (Return (), c)
      | Some stopChan \<Rightarrow>
          if closed c stopChan then (Panic, c)
          else (Return (),
                c\<lparr>closed := (closed c)(stopChan := True),
                  stopChans := AList.delete p (stopChans c)\<rparr>))"

text \<open>\<^verbatim>\<open>ticker.Stop()\<close> on the ticker number \<open>i\<close>.\<close>

definition tickerStop :: "nat \<Rightarrow> 'v CachedClient \<Rightarrow> 'v CachedClient" where
  "tickerStop i c =
     (if i < length (tickTasks c)
      then c\<lparr>tickTasks := (tickTasks c)[i := (tickTasks c ! i)\<lparr>tk_stopped := True\<rparr>]\<rparr>
      else c)"

fun stopTickers :: "nat list \<Rightarrow> 'v CachedClient \<Rightarrow> 'v CachedClient" where
  "stopTickers [] c = c"
| "stopTickers (i # is) c = stopTickers is (tickerStop i c)"

fun stopAll :: "path list \<Rightarrow> 'v CachedClient \<Rightarrow> unit outcome \<times> 'v CachedClient" where
  "stopAll [] c = (Return (), c)"
| "stopAll (p # ps) c =
     (case StopCacheUpdates p c of
        (Panic, c') \<Rightarrow> (Panic, c')
      | (Return _, c') \<Rightarrow> stopAll ps c')"

text \<open>
  \<^verbatim>\<open>Stop\<close>: the two \<^verbatim>\<open>range\<close> loops, in the order of the association lists (Go
  fixes no order; the loops' effects do not depend on it), then \<^verbatim>\<open>c.cron.Stop()\<close>.
\<close>

definition Stop :: "'v CachedClient \<Rightarrow> unit outcome \<times> 'v CachedClient" where
  "Stop c =
     (let c1 = stopTickers (map snd (ticker c)) c
      in case stopAll (map fst (stopChans c1)) c1 of
           (Panic, c2) \<Rightarrow> (Panic, c2)
         | (Return _, c2) \<Rightarrow> (Return (), c2\<lparr>cronRunning := False\<rparr>))"

subsection \<open>The background tasks\<close>

text \<open>
  What the scheduler does between two calls of the client, one event at a time.
  \<open>Tick i\<close>: the goroutine of ticker \<open>i\<close> takes the branch
  \<^verbatim>\<open>case <-ticker.C: updateFunc()\<close> (a tick may still be buffered in the channel
  of a stopped ticker, so the event does not ask that the ticker runs).
  \<open>Cancel i\<close>: it takes the branch \<^verbatim>\<open>case <-stopChan: ticker.Stop(); return\<close>,
  which needs the stop channel closed. \<open>CronRun k\<close>: the cron scheduler, if it runs,
  calls its entry \<open>k\<close>. \<open>Wait d\<close>: \<open>d\<close> nanoseconds pass. An event that cannot
  happen in the state leaves it as it is.
\<close>

datatype event = Tick nat | Cancel nat | CronRun nat | Wait nat

definition fire :: "('b, 'v) env \<Rightarrow> event \<Rightarrow> 'v CachedClient \<Rightarrow> 'v CachedClient" where
  "fire E ev c =
     (case ev of
        Tick i \<Rightarrow>
          if i < length (tickTasks c) \<and> \<not> tk_exited (tickTasks c ! i)
          then updateFunc E (tk_job (tickTasks c ! i)) c
          else c
      | Cancel i \<Rightarrow>
          if i < length (tickTasks c) \<and> \<not> tk_exited (tickTasks c ! i)
               \<and> closed c (j_stop (tk_job (tickTasks c ! i)))
          then c\<lparr>tickTasks := (tickTasks c)
                  [i := (tickTasks c ! i)\<lparr>tk_stopped := True, tk_exited := True\<rparr>]\<rparr>
          else c
      | CronRun k \<Rightarrow>
          if cronRunning c \<and> k < length (cronEntries c)
          then updateFunc E (cronEntries c ! k) c
          else c
      | Wait d \<Rightarrow> c\<lparr>clock := clock c + int d\<rparr>)"

fun background :: "('b, 'v) env \<Rightarrow> event list \<Rightarrow> 'v CachedClient \<Rightarrow> 'v CachedClient" where
  "background E [] c = c"
| "background E (ev # evs) c = background E evs (fire E ev c)"

subsection \<open>Invariants of the stop channels\<close>

text \<open>
  \<open>chanInv\<close>: the channels in \<^verbatim>\<open>c.stopChans\<close> are open, were made by the client, and
  no two paths share one; every closed channel was made by the client. \<open>jobs\<close> are the
  closures held by the ticker goroutines and by the cron scheduler. \<open>reachableJobs\<close>:
  the channel of every job is closed already or is the one stored under the job's path,
  so that \<^verbatim>\<open>StopCacheUpdates\<close> of the path can close it.
\<close>

definition chanInv :: "'v CachedClient \<Rightarrow> bool" where
  "chanInv c \<longleftrightarrow>
     (\<forall>ch. closed c ch \<longrightarrow> ch < nextChan c)
     \<and> (\<forall>p ch. map_of (stopChans c) p = Some ch \<longrightarrow>
           \<not> closed c ch \<and> ch < nextChan c
           \<and> (\<forall>q. map_of (stopChans c) q = Some ch \<longrightarrow> q = p))"

definition jobs :: "'v CachedClient \<Rightarrow> job list" where
  "jobs c = map tk_job (tickTasks c) @ cronEntries c"

definition reachableJobs :: "'v CachedClient \<Rightarrow> bool" where
  "reachableJobs c \<longleftrightarrow>
     (\<forall>j \<in> set (jobs c).
        closed c (j_stop j) \<or> map_of (stopChans c) (j_path j) = Some (j_stop j))"

text \<open>The requests sent for one path.\<close>

definition requestsFor :: "path \<Rightarrow> 'v CachedClient \<Rightarrow> (ctx \<times> path) list" where
  "requestsFor p c = filter (\<lambda>r. snd r = p) (requests c)"

subsection \<open>Concurrent calls of GetCachedOrFetch\<close>

text \<open>
  Goroutines that run \<^verbatim>\<open>GetCachedOrFetch\<close> at the same time, interleaved. A call
  is cut in two steps, each taken as a whole: \<open>enter\<close> is the lookup under the read
  lock and the test \<^verbatim>\<open>needsFetch\<close> (with the \<^verbatim>\<open>return\<close> of the fresh case);
  \<open>refresh\<close> is \<^verbatim>\<open>updateCache\<close>, the second lookup and the \<^verbatim>\<open>return\<close>.
  Nothing in the source keeps another goroutine from running between the two. The entry a
  call holds is the one stored under its path (no call here replaces it).
\<close>

datatype fetch_call =
    Entered ctx path
  | Refreshing ctx path
  | Returned "(addr option \<times> error option) outcome"

definition enter :: "ctx \<Rightarrow> path \<Rightarrow> 'v CachedClient \<Rightarrow> fetch_call" where
  "enter cx p c =
     (case cache c p of
        None \<Rightarrow> Returned (Return (None, Some (NoCacheEntry p)))
      | Some entry \<Rightarrow>
          if needsFetch c entry then Refreshing cx p
          else Returned (Return (Some (Data entry), None)))"

definition refresh ::
  "('b, 'v) env \<Rightarrow> ctx \<Rightarrow> path \<Rightarrow> 'v CachedClient \<Rightarrow> fetch_call \<times> 'v CachedClient"
where
  "refresh E cx p c =
     (case cache c p of
        None \<Rightarrow> (Returned Panic, c)
      | Some entry \<Rightarrow>
          (case updateCache E cx p (Data entry) c of
             (Some err, c') \<Rightarrow> (Returned (Return (None, Some (FailedToFetchFreshData err))), c')
           | (None, c') \<Rightarrow>
               (case cache c' p of
                  None \<Rightarrow> (Returned Panic, c')
                | Some entry' \<Rightarrow> (Returned (Return (Some (Data entry'), None)), c'))))"

definition callStep ::
  "('b, 'v) env \<Rightarrow> nat \<Rightarrow> 'v CachedClient \<times> fetch_call list
     \<Rightarrow> 'v CachedClient \<times> fetch_call list"
where
  "callStep E i s =
     (let c = fst s; calls = snd s
      in if i < length calls then
           (case calls ! i of
              Entered cx p \<Rightarrow> (c, calls[i := enter cx p c])
            | Refreshing cx p \<Rightarrow>
                (snd (refresh E cx p c), calls[i := fst (refresh E cx p c)])
            | Returned r \<Rightarrow> (c, calls))
         else (c, calls))"

text \<open>A schedule names, step after step, the call that moves.\<close>

fun interleave ::
  "('b, 'v) env \<Rightarrow> nat list \<Rightarrow> 'v CachedClient \<times> fetch_call list
     \<Rightarrow> 'v CachedClient \<times> fetch_call list"
where
  "interleave E [] s = s"
| "interleave E (i # is) s = interleave E is (callStep E i s)"




subsection \<open>Concrete collaborators and clients\<close>

text \<open>
  A server that answers the request number \<open>n\<close> with status 200 and the body \<open>n + 7\<close>
  after 5 nanoseconds, and a decoder that stores the body; the payloads are numbers.
  The duration parser knows three durations, and the cron parser four specs that the
  cron library accepts.
  \<open>demoClient t\<close> is a client in the year 2025 whose cache holds one entry, updated
  at \<open>t\<close>, with a window of 1000 nanoseconds.
\<close>

definition demoEnv :: "(nat, nat) env" where
  "demoEnv =
     \<lparr>transport = (\<lambda>n ctx p. Response 200 (Some (n + 7))),
      latency = (\<lambda>n. 5),
      unmarshal = (\<lambda>b v. (b, False)),
      parseDuration = (\<lambda>s. if s = ''30s'' then Some 30000000000
                          else if s = ''2m'' then Some 120000000000
                          else if s = ''0s'' then Some 0
                          else None),
      cronParse = (\<lambda>s. s \<in> set [''* * * * *'', ''@every 2m'', ''@every 30s'', ''@every 0s''])\<rparr>"

definition year2025 :: instant where
  "year2025 = 63900000000000000000"

definition demoClient :: "instant \<Rightarrow> nat CachedClient" where
  "demoClient t =
     (NewCachedClient (\<lambda>_. 0) year2025)
       \<lparr>cache := [''/test'' \<mapsto> \<lparr>Data = 1, UpdatedAt = t, Expiration = 1000\<rparr>]\<rparr>"

text \<open>
  A payload with two fields, as \<^verbatim>\<open>TestCacheData\<close> of the tests
  (\<^verbatim>\<open>Value\<close>, \<^verbatim>\<open>Timestamp\<close>), and a body that carries a string for the first
  and, for the second, a value of the right type or not (\<open>None\<close>). The decoder stores
  the first field; on a second field of the wrong type it leaves that field and returns
  an error, as \<^verbatim>\<open>json.Unmarshal\<close> does.
\<close>

definition fieldwise :: "string \<times> nat option \<Rightarrow> string \<times> nat \<Rightarrow> (string \<times> nat) \<times> bool" where
  "fieldwise b v =
     (case snd b of
        None \<Rightarrow> ((fst b, snd v), True)
      | Some t \<Rightarrow> ((fst b, t), False))"

definition mismatchEnv :: "(string \<times> nat option, string \<times> nat) env" where
  "mismatchEnv =
     \<lparr>transport = (\<lambda>n cx p. Response 200 (Some (''new'', None))),
      latency = (\<lambda>n. 5),
      unmarshal = fieldwise,
      parseDuration = (\<lambda>s. None),
      cronParse = (\<lambda>s. s = ''* * * * *'')\<rparr>"



definition unpopulatedClient :: "nat CachedClient" where
  "unpopulatedClient =
     (NewCachedClient (\<lambda>_. 0) year2025)
       \<lparr>cache := [''/test'' \<mapsto>
          \<lparr>Data = 1, UpdatedAt = 0, Expiration = 9223372036854775807\<rparr>]\<rparr>"

definition freshClient :: "nat CachedClient" where
  "freshClient = NewCachedClient (\<lambda>_. 0) year2025"

definition testConfig :: "string \<Rightarrow> duration \<Rightarrow> bool \<Rightarrow> CacheConfig" where
  "testConfig spec window skip =
     \<lparr>Path = ''/test'', CronSpec = spec, Expiration = window, SkipInitialFetch = skip\<rparr>"



definition freshPairClient :: "(string \<times> nat) CachedClient" where
  "freshPairClient = NewCachedClient (\<lambda>_. ([], 0)) year2025"

text \<open>
  A client on which \<^verbatim>\<open>SetupCachedEndpoint\<close> was called twice for the same path,
  each time with \<^verbatim>\<open>"@every 30s"\<close>.
\<close>

definition every30s :: CacheConfig where
  "every30s = testConfig ''@every 30s'' 60000000000 True"

definition twiceRegistered :: "nat CachedClient" where
  "twiceRegistered =
     snd (SetupCachedEndpoint demoEnv (Caller 2) every30s 1
       (snd (SetupCachedEndpoint demoEnv (Caller 1) every30s 1 freshClient)))"


section \<open>Properties\<close>

subsection \<open>What updateCache changes\<close>

lemma updateCache_requests:
  "requests (snd (updateCache E ctx p r c)) = requests c @ [(ctx, p)]"
  by (simp add: updateCache_def storeResult_def Let_def
        split: reply.splits option.splits prod.splits)

lemma updateCache_error_cache:
  "fst (updateCache E ctx p r c) = Some err \<Longrightarrow> cache (snd (updateCache E ctx p r c)) = cache c"
  by (simp add: updateCache_def storeResult_def Let_def
        split: reply.splits option.splits prod.splits if_splits)

lemma updateCache_frame:
  "stopChans (snd (updateCache E ctx p r c)) = stopChans c"
  "ticker (snd (updateCache E ctx p r c)) = ticker c"
  "cronEntries (snd (updateCache E ctx p r c)) = cronEntries c"
  "cronRunning (snd (updateCache E ctx p r c)) = cronRunning c"
  "nextChan (snd (updateCache E ctx p r c)) = nextChan c"
  "closed (snd (updateCache E ctx p r c)) = closed c"
  "tickTasks (snd (updateCache E ctx p r c)) = tickTasks c"
  "printed (snd (updateCache E ctx p r c)) = printed c"
  by (simp_all add: updateCache_def storeResult_def Let_def
        split: reply.splits option.splits prod.splits)

lemma updateCache_clock:
  "clock (snd (updateCache E ctx p r c)) = clock c + int (latency E (length (requests c)))"
  by (simp add: updateCache_def storeResult_def Let_def
        split: reply.splits option.splits prod.splits)

subsection \<open>GetCachedOrFetch\<close>

text \<open>
  Claim C4. \<^verbatim>\<open>GetCachedOrFetch\<close> on a key that is not in the cache returns no value
  and the error "no cache entry", and changes nothing. On an entry that was never updated
  (zero \<^verbatim>\<open>UpdatedAt\<close>) or whose age exceeds its \<^verbatim>\<open>Expiration\<close> it sends exactly one
  request, under the caller's context, before it returns; when that refresh fails (the
  transport fails, the status is not 200, the body cannot be read, or decoding fails) it
  returns no value and the error of the refresh, wrapped, and the cache is as before; when
  the refresh succeeds it returns the entry's pointer, whose object holds what was decoded,
  and the entry is stamped with the time of the write. On a fresh entry it returns the
  entry's pointer and no error, and the client is unchanged: no request is sent.
\<close>

theorem GetCachedOrFetch_contract:
  "(cache c p = None \<longrightarrow>
      GetCachedOrFetch E ctx p c = (Return (None, Some (NoCacheEntry p)), c))
   \<and> (\<forall>entry. cache c p = Some entry
         \<and> \<not> IsZero (UpdatedAt entry)
         \<and> Since c (UpdatedAt entry) \<le> sint (CacheEntry.Expiration entry) \<longrightarrow>
       GetCachedOrFetch E ctx p c = (Return (Some (Data entry), None), c))
   \<and> (\<forall>entry. cache c p = Some entry
         \<and> (IsZero (UpdatedAt entry)
              \<or> sint (CacheEntry.Expiration entry) < Since c (UpdatedAt entry)) \<longrightarrow>
       (let (r, c') = GetCachedOrFetch E ctx p c;
            dest = Data entry
        in requests c' = requests c @ [(ctx, p)]
           \<and> (case transport E (length (requests c)) ctx p of
                 TransportError \<Rightarrow>
                   r = Return (None, Some (FailedToFetchFreshData FailedToFetchData))
                   \<and> cache c' = cache c
               | Response status body \<Rightarrow>
                   if status \<noteq> 200 then
                     r = Return (None, Some (FailedToFetchFreshData (UnexpectedStatusCode status)))
                     \<and> cache c' = cache c
                   else (case body of
                           None \<Rightarrow>
                             r = Return (None, Some (FailedToFetchFreshData FailedToReadBody))
                             \<and> cache c' = cache c
                         | Some b \<Rightarrow>
                             if snd (unmarshal E b (heap c dest)) then
                               r = Return (None, Some (FailedToFetchFreshData FailedToUnmarshal))
                               \<and> cache c' = cache c
                             else
                               r = Return (Some dest, None)
                               \<and> heap c' dest = fst (unmarshal E b (heap c dest))
                               \<and> cache c' p = Some (entry\<lparr>UpdatedAt := clock c'\<rparr>)))))"
  by (auto simp: GetCachedOrFetch_def needsFetch_def updateCache_def storeResult_def Let_def
        split: reply.splits option.splits prod.splits)

theorem GetCachedOrFetch_contract_witness:
  "GetCachedOrFetch demoEnv (Caller 1) ''/other'' (demoClient 0)
     = (Return (None, Some (NoCacheEntry ''/other'')), demoClient 0)
   \<and> GetCachedOrFetch demoEnv (Caller 1) ''/test'' (demoClient (year2025 - 500))
     = (Return (Some 1, None), demoClient (year2025 - 500))
   \<and> fst (GetCachedOrFetch demoEnv (Caller 1) ''/test'' (demoClient 0)) = Return (Some 1, None)
   \<and> requests (snd (GetCachedOrFetch demoEnv (Caller 1) ''/test'' (demoClient 0)))
     = [(Caller 1, ''/test'')]
   \<and> heap (snd (GetCachedOrFetch demoEnv (Caller 1) ''/test'' (demoClient 0))) 1 = 7"
  using GetCachedOrFetch_contract [where c = "demoClient 0" and p = "''/other''"
          and E = demoEnv and ctx = "Caller 1"]
        GetCachedOrFetch_contract [where c = "demoClient (year2025 - 500)"
          and p = "''/test''" and E = demoEnv and ctx = "Caller 1"]
        GetCachedOrFetch_contract [where c = "demoClient 0" and p = "''/test''"
          and E = demoEnv and ctx = "Caller 1"]
  by (simp add: demoClient_def demoEnv_def year2025_def NewCachedClient_def IsZero_def
        Since_def Sub_def maxDuration_def minDuration_def split: prod.splits)

subsection \<open>GetCached\<close>

lemma GetCached_missing:
  "cache c p = None \<Longrightarrow> GetCached p c = (None, Some (NoCacheEntry p))"
  by (simp add: GetCached_def)

lemma GetCached_entry:
  "cache c p = Some entry \<Longrightarrow>
     GetCached p c =
       (Some (Data entry),
        if sint (CacheEntry.Expiration entry) < Since c (UpdatedAt entry)
        then Some (CacheExpired p) else None)"
  by (simp add: GetCached_def)

lemma Since_zero_saturates:
  "maxDuration < clock c \<Longrightarrow> Since c 0 = maxDuration"
  by (simp add: Since_def Sub_def)

lemma sint_duration_le_max: "sint (d :: duration) \<le> maxDuration"
  using sint_lt [of d] by (simp add: maxDuration_def)

text \<open>
  An entry that was never updated, read at a time later than the year 293: the age
  \<^verbatim>\<open>time.Since\<close> gives is the largest Duration, so the entry is reported expired
  for every window but the largest one.
\<close>

lemma GetCached_unpopulated:
  "cache c p = Some entry \<Longrightarrow> UpdatedAt entry = 0 \<Longrightarrow> maxDuration < clock c \<Longrightarrow>
     snd (GetCached p c) =
       (if sint (CacheEntry.Expiration entry) = maxDuration then None
        else Some (CacheExpired p))"
  using sint_duration_le_max [of "CacheEntry.Expiration entry"]
  by (simp add: GetCached_entry Since_zero_saturates)

text \<open>
  Claim C3. \<^verbatim>\<open>GetCached\<close> is to report an entry that was never updated as expired,
  whatever its window. The code compares \<^verbatim>\<open>time.Since(entry.UpdatedAt)\<close> with
  \<^verbatim>\<open>entry.Expiration\<close> and has no test for the zero time, which
  \<^verbatim>\<open>GetCachedOrFetch\<close> has: with \<^verbatim>\<open>Expiration\<close> the largest Duration
  (\<^verbatim>\<open>math.MaxInt64\<close> nanoseconds) the never-updated entry is returned with no error,
  while \<^verbatim>\<open>GetCachedOrFetch\<close> on the same client fetches.
\<close>

theorem GetCached_unpopulated_longest_window:
  "cache unpopulatedClient ''/test''
     = Some \<lparr>Data = 1, UpdatedAt = 0, Expiration = 9223372036854775807\<rparr>
   \<and> requests unpopulatedClient = []
   \<and> GetCached ''/test'' unpopulatedClient = (Some 1, None)
   \<and> fst (GetCachedOrFetch demoEnv (Caller 1) ''/test'' unpopulatedClient) = Return (Some 1, None)
   \<and> requests (snd (GetCachedOrFetch demoEnv (Caller 1) ''/test'' unpopulatedClient))
        = [(Caller 1, ''/test'')]"
  by (simp add: unpopulatedClient_def NewCachedClient_def year2025_def GetCached_def
        GetCachedOrFetch_def needsFetch_def IsZero_def updateCache_def storeResult_def
        demoEnv_def Since_def Sub_def maxDuration_def minDuration_def)

subsection \<open>A refresh that fails\<close>




subsection \<open>SetupCachedEndpoint: the schedule\<close>

lemma updateCache_frameD:
  assumes "updateCache E cx p r c = (x, c')"
  shows "stopChans c' = stopChans c" "ticker c' = ticker c" "cronEntries c' = cronEntries c"
    "cronRunning c' = cronRunning c" "nextChan c' = nextChan c" "closed c' = closed c"
    "tickTasks c' = tickTasks c" "printed c' = printed c"
  using updateCache_frame [of E cx p r c] assms by simp_all

lemma registerEntry_frame:
  "ticker (registerEntry config result c) = ticker c"
  "cronEntries (registerEntry config result c) = cronEntries c"
  "cronRunning (registerEntry config result c) = cronRunning c"
  "closed (registerEntry config result c) = closed c"
  "tickTasks (registerEntry config result c) = tickTasks c"
  "printed (registerEntry config result c) = printed c"
  "requests (registerEntry config result c) = requests c"
  "heap (registerEntry config result c) = heap c"
  "clock (registerEntry config result c) = clock c"
  by (simp_all add: registerEntry_def)

text \<open>What the scheduling half does, case by case.\<close>

lemma scheduleUpdates_ticker:
  "HasPrefix spec ''@every '' \<Longrightarrow> parseDuration E (TrimPrefix spec ''@every '') = Some d \<Longrightarrow>
   0 < sint d \<Longrightarrow> sint d < Minute \<Longrightarrow>
   scheduleUpdates E spec j c =
     (Return None,
      c\<lparr>ticker := AList.update (j_path j) (length (tickTasks c)) (ticker c),
        tickTasks := tickTasks c @
          [\<lparr>tk_period = d, tk_stopped = False, tk_exited = False, tk_job = j\<rparr>]\<rparr>)"
  by (simp add: scheduleUpdates_def)

lemma scheduleUpdates_panic:
  "HasPrefix spec ''@every '' \<Longrightarrow> parseDuration E (TrimPrefix spec ''@every '') = Some d \<Longrightarrow>
   sint d \<le> 0 \<Longrightarrow> scheduleUpdates E spec j c = (Panic, c)"
  by (simp add: scheduleUpdates_def Minute_def)

lemma scheduleUpdates_invalid:
  "HasPrefix spec ''@every '' \<Longrightarrow> parseDuration E (TrimPrefix spec ''@every '') = None \<Longrightarrow>
   scheduleUpdates E spec j c = (Return (Some InvalidDurationInEvery), c)"
  by (simp add: scheduleUpdates_def)

lemma scheduleUpdates_cron:
  "\<not> HasPrefix spec ''@every ''
     \<or> (\<exists>d. parseDuration E (TrimPrefix spec ''@every '') = Some d \<and> Minute \<le> sint d) \<Longrightarrow>
   scheduleUpdates E spec j c =
     (if cronParse E spec
      then (Return None, c\<lparr>cronEntries := cronEntries c @ [j], cronRunning := True\<rparr>)
      else (Return (Some FailedToSchedule), c))"
  by (auto simp: scheduleUpdates_def cronSchedule_def)

lemma Setup_after_fetch:
  "SkipInitialFetch config
     \<or> fst (updateCache E cx (Path config) result (registerEntry config result c)) = None \<Longrightarrow>
   SetupCachedEndpoint E cx config result c =
     scheduleUpdates E (CronSpec config)
       \<lparr>j_stop = nextChan c, j_path = Path config, j_result = result\<rparr>
       (if SkipInitialFetch config then registerEntry config result c
        else snd (updateCache E cx (Path config) result (registerEntry config result c)))"
  by (auto simp: SetupCachedEndpoint_def Let_def split: prod.splits option.splits)

text \<open>
  The schedule, for every spec but an \<^verbatim>\<open>"@every P"\<close> with \<open>P\<close> zero or negative.
  When the initial fetch is skipped or has succeeded:
  a spec \<^verbatim>\<open>"@every P"\<close> whose \<open>P\<close> parses as a positive duration shorter than one
  minute gives a new ticker with its goroutine, stored under the path, and the cron
  scheduler is not touched; every other spec (also \<^verbatim>\<open>"@every P"\<close> with \<open>P\<close> of one
  minute or more) that the cron parser accepts is added to the cron scheduler, which is
  started, and no ticker is made; an \<^verbatim>\<open>"@every P"\<close> whose \<open>P\<close> does not parse, and
  a spec that the cron parser rejects, make the call return an error, with no ticker and
  no cron entry added.
\<close>

lemma schedule_policy:
  assumes "SkipInitialFetch config
     \<or> fst (updateCache E cx (Path config) result (registerEntry config result c)) = None"
  shows
  "(let (r, c') = SetupCachedEndpoint E cx config result c;
        spec = CronSpec config;
        j = \<lparr>j_stop = nextChan c, j_path = Path config, j_result = result\<rparr>
    in (\<forall>d. HasPrefix spec ''@every ''
             \<and> parseDuration E (TrimPrefix spec ''@every '') = Some d
             \<and> 0 < sint d \<and> sint d < Minute \<longrightarrow>
           r = Return None
           \<and> tickTasks c' = tickTasks c @
               [\<lparr>tk_period = d, tk_stopped = False, tk_exited = False, tk_job = j\<rparr>]
           \<and> map_of (ticker c') (Path config) = Some (length (tickTasks c))
           \<and> cronEntries c' = cronEntries c \<and> cronRunning c' = cronRunning c)
       \<and> ((\<not> HasPrefix spec ''@every ''
              \<or> (\<exists>d. parseDuration E (TrimPrefix spec ''@every '') = Some d \<and> Minute \<le> sint d))
            \<and> cronParse E spec \<longrightarrow>
           r = Return None
           \<and> cronEntries c' = cronEntries c @ [j] \<and> cronRunning c'
           \<and> tickTasks c' = tickTasks c \<and> ticker c' = ticker c)
       \<and> (HasPrefix spec ''@every ''
            \<and> parseDuration E (TrimPrefix spec ''@every '') = None \<longrightarrow>
           r = Return (Some InvalidDurationInEvery)
           \<and> tickTasks c' = tickTasks c \<and> ticker c' = ticker c
           \<and> cronEntries c' = cronEntries c \<and> cronRunning c' = cronRunning c)
       \<and> ((\<not> HasPrefix spec ''@every ''
              \<or> (\<exists>d. parseDuration E (TrimPrefix spec ''@every '') = Some d \<and> Minute \<le> sint d))
            \<and> \<not> cronParse E spec \<longrightarrow>
           r = Return (Some FailedToSchedule)
           \<and> tickTasks c' = tickTasks c \<and> ticker c' = ticker c
           \<and> cronEntries c' = cronEntries c \<and> cronRunning c' = cronRunning c))"
proof -
  let ?j = "\<lparr>j_stop = nextChan c, j_path = Path config, j_result = result\<rparr>"
  let ?c = "if SkipInitialFetch config then registerEntry config result c
        else snd (updateCache E cx (Path config) result (registerEntry config result c))"
  have S: "SetupCachedEndpoint E cx config result c = scheduleUpdates E (CronSpec config) ?j ?c"
    using assms by (rule Setup_after_fetch)
  show ?thesis
    unfolding S
    by (auto simp: scheduleUpdates_ticker scheduleUpdates_invalid scheduleUpdates_cron
          updateCache_frame registerEntry_frame AList.update_conv Let_def)
qed

lemma schedule_policy_examples:
  "fst (SetupCachedEndpoint demoEnv (Caller 1) (testConfig ''@every 30s'' 60000000000 True) 1
          freshClient) = Return None
   \<and> tickTasks (snd (SetupCachedEndpoint demoEnv (Caller 1)
          (testConfig ''@every 30s'' 60000000000 True) 1 freshClient))
       = [\<lparr>tk_period = 30000000000, tk_stopped = False, tk_exited = False,
           tk_job = \<lparr>j_stop = 0, j_path = ''/test'', j_result = 1\<rparr>\<rparr>]
   \<and> cronEntries (snd (SetupCachedEndpoint demoEnv (Caller 1)
          (testConfig ''@every 30s'' 60000000000 True) 1 freshClient)) = []
   \<and> fst (SetupCachedEndpoint demoEnv (Caller 1) (testConfig ''@every 2m'' 60000000000 True) 1
          freshClient) = Return None
   \<and> cronEntries (snd (SetupCachedEndpoint demoEnv (Caller 1)
          (testConfig ''@every 2m'' 60000000000 True) 1 freshClient))
       = [\<lparr>j_stop = 0, j_path = ''/test'', j_result = 1\<rparr>]
   \<and> tickTasks (snd (SetupCachedEndpoint demoEnv (Caller 1)
          (testConfig ''@every 2m'' 60000000000 True) 1 freshClient)) = []
   \<and> cronEntries (snd (SetupCachedEndpoint demoEnv (Caller 1)
          (testConfig ''* * * * *'' 60000000000 False) 1 freshClient))
       = [\<lparr>j_stop = 0, j_path = ''/test'', j_result = 1\<rparr>]
   \<and> fst (SetupCachedEndpoint demoEnv (Caller 1) (testConfig ''@every soon'' 60000000000 True) 1
          freshClient) = Return (Some InvalidDurationInEvery)
   \<and> fst (SetupCachedEndpoint demoEnv (Caller 1) (testConfig ''invalid'' 60000000000 True) 1
          freshClient) = Return (Some FailedToSchedule)"
  using schedule_policy [where E = demoEnv and cx = "Caller 1" and result = 1 and c = freshClient
          and config = "testConfig ''@every 30s'' 60000000000 True"]
        schedule_policy [where E = demoEnv and cx = "Caller 1" and result = 1 and c = freshClient
          and config = "testConfig ''@every 2m'' 60000000000 True"]
        schedule_policy [where E = demoEnv and cx = "Caller 1" and result = 1 and c = freshClient
          and config = "testConfig ''* * * * *'' 60000000000 False"]
        schedule_policy [where E = demoEnv and cx = "Caller 1" and result = 1 and c = freshClient
          and config = "testConfig ''@every soon'' 60000000000 True"]
        schedule_policy [where E = demoEnv and cx = "Caller 1" and result = 1 and c = freshClient
          and config = "testConfig ''invalid'' 60000000000 True"]
  by (simp add: testConfig_def demoEnv_def freshClient_def NewCachedClient_def HasPrefix_def
        TrimPrefix_def Minute_def registerEntry_def updateCache_def storeResult_def
        split: prod.splits)

text \<open>
  An \<^verbatim>\<open>"@every P"\<close> whose \<open>P\<close> parses as zero or a negative duration passes the test
  \<^verbatim>\<open>duration < time.Minute\<close> and reaches \<^verbatim>\<open>time.NewTicker\<close>, which panics.
\<close>

lemma Setup_nonpositive_period_panics:
  assumes "SkipInitialFetch config
     \<or> fst (updateCache E cx (Path config) result (registerEntry config result c)) = None"
    and "HasPrefix (CronSpec config) ''@every ''"
    and "parseDuration E (TrimPrefix (CronSpec config) ''@every '') = Some d"
    and "sint d \<le> 0"
  shows "fst (SetupCachedEndpoint E cx config result c) = Panic"
  using Setup_after_fetch [OF assms(1)] scheduleUpdates_panic [OF assms(2,3,4)] by simp

text \<open>
  Claim C7: for every \<^verbatim>\<open>"@every P"\<close> whose \<open>P\<close> parses as a duration shorter than one
  minute, the schedule is a ticker rather than the cron scheduler. With \<^verbatim>\<open>"@every 0s"\<close>
  the code does not make one. The spec has the prefix, \<open>P\<close> parses as the duration 0,
  shorter than one minute, and the cron parser would accept the spec;
  \<^verbatim>\<open>SetupCachedEndpoint\<close> panics in \<^verbatim>\<open>time.NewTicker\<close>, after it has registered the
  entry: no ticker is made or stored, and the call returns no error, as it does for a
  \<open>P\<close> that does not parse.
\<close>

theorem zero_period_panics:
  "HasPrefix ''@every 0s'' ''@every ''
   \<and> parseDuration demoEnv (TrimPrefix ''@every 0s'' ''@every '') = Some 0
   \<and> sint (0 :: duration) < Minute
   \<and> cronParse demoEnv ''@every 0s''
   \<and> SetupCachedEndpoint demoEnv (Caller 1) (testConfig ''@every 0s'' 60000000000 True) 1
          freshClient
       = (Panic, registerEntry (testConfig ''@every 0s'' 60000000000 True) 1 freshClient)
   \<and> tickTasks (registerEntry (testConfig ''@every 0s'' 60000000000 True) 1 freshClient) = []
   \<and> ticker (registerEntry (testConfig ''@every 0s'' 60000000000 True) 1 freshClient) = []"
  by (simp add: SetupCachedEndpoint_def scheduleUpdates_def testConfig_def demoEnv_def
        freshClient_def NewCachedClient_def HasPrefix_def TrimPrefix_def Minute_def
        registerEntry_def)

subsection \<open>SetupCachedEndpoint: an initial payload that does not decode\<close>

text \<open>
  Claim C6, as the code has it. When the initial fetch of \<^verbatim>\<open>SetupCachedEndpoint\<close>
  gets a body that \<^verbatim>\<open>json.Unmarshal\<close> rejects, the call returns the decoding error,
  wrapped ("initial cache update failed"), after one request, and starts no task. The
  entry made at the start of the call stays in the cache, with the zero \<^verbatim>\<open>UpdatedAt\<close>:
  \<^verbatim>\<open>GetCached\<close> returns its pointer (with the expired error, at any present-day
  time and for any window but the largest Duration), and \<^verbatim>\<open>GetCachedOrFetch\<close>
  always fetches before it returns it. The object behind the pointer holds what the
  decoder left there: it is as before when the decoder rejects the body without writing.
\<close>

theorem malformed_initial_payload:
  assumes "\<not> SkipInitialFetch config"
    and "transport E (length (requests c)) cx (Path config) = Response 200 (Some b)"
    and "snd (unmarshal E b (heap c result))"
  shows
  "(let (r, c') = SetupCachedEndpoint E cx config result c;
        entry = \<lparr>Data = result, UpdatedAt = 0, Expiration = CacheConfig.Expiration config\<rparr>
    in r = Return (Some (InitialCacheUpdateFailed FailedToUnmarshal))
       \<and> cache c' (Path config) = Some entry
       \<and> fst (GetCached (Path config) c') = Some result
       \<and> (maxDuration < clock c' \<and> sint (CacheConfig.Expiration config) < maxDuration \<longrightarrow>
            snd (GetCached (Path config) c') = Some (CacheExpired (Path config)))
       \<and> (\<forall>c'' :: 'v CachedClient. needsFetch c'' entry)
       \<and> heap c' = (heap c)(result := fst (unmarshal E b (heap c result)))
       \<and> (fst (unmarshal E b (heap c result)) = heap c result \<longrightarrow> heap c' = heap c)
       \<and> requests c' = requests c @ [(cx, Path config)]
       \<and> tickTasks c' = tickTasks c \<and> ticker c' = ticker c
       \<and> cronEntries c' = cronEntries c \<and> cronRunning c' = cronRunning c)"
  using assms
  by (auto simp: SetupCachedEndpoint_def registerEntry_def updateCache_def Let_def
        GetCached_def needsFetch_def IsZero_def Since_def Sub_def
        split: prod.splits)

theorem malformed_initial_payload_witness:
  "fst (SetupCachedEndpoint mismatchEnv (Caller 1) (testConfig ''* * * * *'' 60000000000 False) 1
          freshPairClient) = Return (Some (InitialCacheUpdateFailed FailedToUnmarshal))
   \<and> cache (snd (SetupCachedEndpoint mismatchEnv (Caller 1)
          (testConfig ''* * * * *'' 60000000000 False) 1 freshPairClient)) ''/test''
       = Some \<lparr>Data = 1, UpdatedAt = 0, Expiration = 60000000000\<rparr>
   \<and> GetCached ''/test'' (snd (SetupCachedEndpoint mismatchEnv (Caller 1)
          (testConfig ''* * * * *'' 60000000000 False) 1 freshPairClient))
       = (Some 1, Some (CacheExpired ''/test''))
   \<and> cronEntries (snd (SetupCachedEndpoint mismatchEnv (Caller 1)
          (testConfig ''* * * * *'' 60000000000 False) 1 freshPairClient)) = []"
  using malformed_initial_payload [where E = mismatchEnv and cx = "Caller 1" and result = 1
          and c = freshPairClient and config = "testConfig ''* * * * *'' 60000000000 False"
          and b = "(''new'', None)"]
  by (simp add: testConfig_def mismatchEnv_def fieldwise_def freshPairClient_def
        NewCachedClient_def year2025_def maxDuration_def minDuration_def GetCached_def
        SetupCachedEndpoint_def registerEntry_def updateCache_def Since_def Sub_def)

text \<open>
  Claim C6 as stated excludes partial data. Here the body has a first field that decodes
  and a second field of the wrong type: the call fails with the decoding error, the entry
  is retrievable, and the object it points to holds the first field of the rejected body.
\<close>

theorem rejected_payload_is_kept:
  "heap freshPairClient 1 = ([], 0)
   \<and> fst (SetupCachedEndpoint mismatchEnv (Caller 1) (testConfig ''* * * * *'' 60000000000 False) 1
          freshPairClient) = Return (Some (InitialCacheUpdateFailed FailedToUnmarshal))
   \<and> fst (GetCached ''/test'' (snd (SetupCachedEndpoint mismatchEnv (Caller 1)
          (testConfig ''* * * * *'' 60000000000 False) 1 freshPairClient))) = Some 1
   \<and> heap (snd (SetupCachedEndpoint mismatchEnv (Caller 1)
          (testConfig ''* * * * *'' 60000000000 False) 1 freshPairClient)) 1 = (''new'', 0)"
  by (simp add: SetupCachedEndpoint_def registerEntry_def updateCache_def testConfig_def
        mismatchEnv_def fieldwise_def freshPairClient_def NewCachedClient_def GetCached_def)

subsection \<open>SetupCachedEndpoint: a schedule that is rejected\<close>

lemma scheduleUpdates_error:
  "scheduleUpdates E spec j c = (Return (Some err), c') \<Longrightarrow>
     c' = c \<and> (err = InvalidDurationInEvery \<or> err = FailedToSchedule)"
  by (auto simp: scheduleUpdates_def cronSchedule_def split: if_splits option.splits)

lemma updateCache_success_entry:
  "updateCache E cx p r c = (None, c') \<Longrightarrow> cache c p = Some e \<Longrightarrow>
     cache c' p = Some (e\<lparr>Data := r, UpdatedAt := clock c'\<rparr>)"
  by (auto simp: updateCache_def storeResult_def Let_def
        split: reply.splits option.splits prod.splits if_splits)

lemma Since_after_wait:
  "Sub (t + int d) t = (if maxDuration < int d then maxDuration else int d)"
  by (simp add: Sub_def minDuration_def)

lemma GetCached_after_wait:
  "cache c p = Some entry \<Longrightarrow> UpdatedAt entry = clock c \<Longrightarrow>
   GetCached p (fire E (Wait d) c) =
     (Some (Data entry),
      if sint (CacheEntry.Expiration entry) < int d
           \<and> sint (CacheEntry.Expiration entry) < maxDuration
      then Some (CacheExpired p) else None)"
  using sint_duration_le_max [of "CacheEntry.Expiration entry"]
  by (auto simp: GetCached_def fire_def Since_def Since_after_wait)

text \<open>
  Claim C10, as the code has it. When \<^verbatim>\<open>SetupCachedEndpoint\<close> returns the error of
  an \<^verbatim>\<open>"@every"\<close> duration that does not parse, or of a spec the cron parser
  rejects, the entry made at the start of the call is in the cache and the channel made
  by the call is in \<^verbatim>\<open>c.stopChans\<close> under the path; no task was added. If the
  initial fetch was not skipped, it has succeeded: one request was sent, the entry is
  stamped with the time of the write, and \<^verbatim>\<open>GetCached\<close>, called \<open>d\<close> nanoseconds
  later, returns the pointer, with no error as long as \<open>d\<close> does not exceed the window
  and with the expired error after that.
\<close>

theorem rejected_schedule_keeps_entry:
  assumes "fst (SetupCachedEndpoint E cx config result c) = Return (Some err)"
    and "err = InvalidDurationInEvery \<or> err = FailedToSchedule"
  shows
  "(let c' = snd (SetupCachedEndpoint E cx config result c); p = Path config
    in cache c' p =
         Some \<lparr>Data = result,
               UpdatedAt = (if SkipInitialFetch config then 0 else clock c'),
               Expiration = CacheConfig.Expiration config\<rparr>
       \<and> map_of (stopChans c') p = Some (nextChan c)
       \<and> nextChan c' = Suc (nextChan c) \<and> closed c' = closed c
       \<and> tickTasks c' = tickTasks c \<and> cronEntries c' = cronEntries c
       \<and> (\<not> SkipInitialFetch config \<longrightarrow>
            requests c' = requests c @ [(cx, p)]
            \<and> (\<forall>d. GetCached p (fire E (Wait d) c') =
                  (Some result,
                   if sint (CacheConfig.Expiration config) < int d
                        \<and> sint (CacheConfig.Expiration config) < maxDuration
                   then Some (CacheExpired p) else None))))"
proof (cases "SkipInitialFetch config")
  case True
  let ?c2 = "registerEntry config result c"
  obtain c' where s: "scheduleUpdates E (CronSpec config)
      \<lparr>j_stop = nextChan c, j_path = Path config, j_result = result\<rparr> ?c2 = (Return (Some err), c')"
    using assms(1) True by (cases "scheduleUpdates E (CronSpec config)
      \<lparr>j_stop = nextChan c, j_path = Path config, j_result = result\<rparr> ?c2")
      (simp add: SetupCachedEndpoint_def Let_def)
  have "c' = ?c2" using scheduleUpdates_error [OF s] by simp
  then have "snd (SetupCachedEndpoint E cx config result c) = ?c2"
    using s True by (simp add: SetupCachedEndpoint_def Let_def)
  then show ?thesis using True
    by (simp add: registerEntry_def AList.update_conv Let_def)
next
  case False
  let ?c2 = "registerEntry config result c"
  obtain x c3 where u: "updateCache E cx (Path config) result ?c2 = (x, c3)"
    by (cases "updateCache E cx (Path config) result ?c2")
  have xn: "x = None"
  proof (cases x)
    case (Some e)
    then have "fst (SetupCachedEndpoint E cx config result c)
        = Return (Some (InitialCacheUpdateFailed e))"
      using u False by (simp add: SetupCachedEndpoint_def Let_def)
    then show ?thesis using assms by auto
  qed simp
  obtain c' where s: "scheduleUpdates E (CronSpec config)
      \<lparr>j_stop = nextChan c, j_path = Path config, j_result = result\<rparr> c3 = (Return (Some err), c')"
    using assms(1) False u xn by (cases "scheduleUpdates E (CronSpec config)
      \<lparr>j_stop = nextChan c, j_path = Path config, j_result = result\<rparr> c3")
      (simp add: SetupCachedEndpoint_def Let_def)
  have "c' = c3" using scheduleUpdates_error [OF s] by simp
  then have c3: "snd (SetupCachedEndpoint E cx config result c) = c3"
    using s False u xn by (simp add: SetupCachedEndpoint_def Let_def)
  have e: "cache c3 (Path config) =
      Some \<lparr>Data = result, UpdatedAt = clock c3, Expiration = CacheConfig.Expiration config\<rparr>"
    using updateCache_success_entry [OF u [unfolded xn], of
        "\<lparr>Data = result, UpdatedAt = 0, Expiration = CacheConfig.Expiration config\<rparr>"]
    by (simp add: registerEntry_def)
  have f: "stopChans c3 = stopChans ?c2" "nextChan c3 = nextChan ?c2" "closed c3 = closed ?c2"
    "tickTasks c3 = tickTasks ?c2" "cronEntries c3 = cronEntries ?c2"
    using updateCache_frameD [OF u] by simp_all
  have r: "requests c3 = requests c @ [(cx, Path config)]"
    using updateCache_requests [of E cx "Path config" result ?c2] u
    by (simp add: registerEntry_def)
  have g: "\<And>d. GetCached (Path config) (fire E (Wait d) c3) =
      (Some result,
       if sint (CacheConfig.Expiration config) < int d
            \<and> sint (CacheConfig.Expiration config) < maxDuration
       then Some (CacheExpired (Path config)) else None)"
    by (simp add: GetCached_after_wait [OF e])
  show ?thesis
    unfolding c3 Let_def using False e f r
    by (simp add: registerEntry_def AList.update_conv g)
qed

theorem rejected_schedule_keeps_entry_witness:
  "fst (SetupCachedEndpoint demoEnv (Caller 1) (testConfig ''invalid'' 60000000000 False) 1
          freshClient) = Return (Some FailedToSchedule)
   \<and> cache (snd (SetupCachedEndpoint demoEnv (Caller 1)
          (testConfig ''invalid'' 60000000000 False) 1 freshClient)) ''/test''
       = Some \<lparr>Data = 1, UpdatedAt = year2025 + 5, Expiration = 60000000000\<rparr>
   \<and> map_of (stopChans (snd (SetupCachedEndpoint demoEnv (Caller 1)
          (testConfig ''invalid'' 60000000000 False) 1 freshClient))) ''/test'' = Some 0
   \<and> GetCached ''/test'' (fire demoEnv (Wait 1000) (snd (SetupCachedEndpoint demoEnv (Caller 1)
          (testConfig ''invalid'' 60000000000 False) 1 freshClient))) = (Some 1, None)
   \<and> heap (snd (SetupCachedEndpoint demoEnv (Caller 1)
          (testConfig ''invalid'' 60000000000 False) 1 freshClient)) 1 = 7
   \<and> fst (SetupCachedEndpoint demoEnv (Caller 1) (testConfig ''@every soon'' 60000000000 True) 1
          freshClient) = Return (Some InvalidDurationInEvery)
   \<and> cache (snd (SetupCachedEndpoint demoEnv (Caller 1)
          (testConfig ''@every soon'' 60000000000 True) 1 freshClient)) ''/test''
       = Some \<lparr>Data = 1, UpdatedAt = 0, Expiration = 60000000000\<rparr>"
  using rejected_schedule_keeps_entry [where E = demoEnv and cx = "Caller 1" and result = 1
          and c = freshClient and config = "testConfig ''invalid'' 60000000000 False"
          and err = FailedToSchedule]
        rejected_schedule_keeps_entry [where E = demoEnv and cx = "Caller 1" and result = 1
          and c = freshClient and config = "testConfig ''@every soon'' 60000000000 True"
          and err = InvalidDurationInEvery]
  by (simp add: SetupCachedEndpoint_def registerEntry_def updateCache_def storeResult_def
        scheduleUpdates_def cronSchedule_def HasPrefix_def TrimPrefix_def testConfig_def
        demoEnv_def freshClient_def NewCachedClient_def year2025_def maxDuration_def
        minDuration_def GetCached_def fire_def Since_def Sub_def)

text \<open>
  Claim C10 as stated has \<^verbatim>\<open>GetCached\<close> return no error. With the window left at
  zero (the zero value of \<^verbatim>\<open>CacheConfig.Expiration\<close>) it returns the expired error
  one nanosecond after the fetch, and with a negative window at once.
\<close>

theorem rejected_schedule_entry_expired:
  "fst (SetupCachedEndpoint demoEnv (Caller 1) (testConfig ''invalid'' 0 False) 1 freshClient)
     = Return (Some FailedToSchedule)
   \<and> GetCached ''/test'' (fire demoEnv (Wait 1) (snd (SetupCachedEndpoint demoEnv (Caller 1)
          (testConfig ''invalid'' 0 False) 1 freshClient)))
       = (Some 1, Some (CacheExpired ''/test''))
   \<and> fst (SetupCachedEndpoint demoEnv (Caller 1) (testConfig ''invalid'' (- 1) False) 1
          freshClient) = Return (Some FailedToSchedule)
   \<and> GetCached ''/test'' (snd (SetupCachedEndpoint demoEnv (Caller 1)
          (testConfig ''invalid'' (- 1) False) 1 freshClient))
       = (Some 1, Some (CacheExpired ''/test''))"
  by (simp add: SetupCachedEndpoint_def registerEntry_def updateCache_def storeResult_def
        scheduleUpdates_def cronSchedule_def HasPrefix_def testConfig_def
        demoEnv_def freshClient_def NewCachedClient_def year2025_def maxDuration_def
        minDuration_def GetCached_def fire_def Since_def Sub_def)

subsection \<open>SetupCachedEndpoint with SkipInitialFetch\<close>

lemma scheduleUpdates_frame:
  "cache (snd (scheduleUpdates E spec j c)) = cache c"
  "requests (snd (scheduleUpdates E spec j c)) = requests c"
  "heap (snd (scheduleUpdates E spec j c)) = heap c"
  "clock (snd (scheduleUpdates E spec j c)) = clock c"
  "stopChans (snd (scheduleUpdates E spec j c)) = stopChans c"
  "closed (snd (scheduleUpdates E spec j c)) = closed c"
  "nextChan (snd (scheduleUpdates E spec j c)) = nextChan c"
  by (simp_all add: scheduleUpdates_def cronSchedule_def split: option.splits)

text \<open>
  With \<^verbatim>\<open>SkipInitialFetch\<close> the call sends no request and leaves the entry with the
  zero time, whatever the schedule; \<^verbatim>\<open>GetCached\<close> then reports the entry expired
  at any present-day time, for every window but the largest Duration.
\<close>

lemma Setup_skip:
  assumes "SkipInitialFetch config"
  shows "requests (snd (SetupCachedEndpoint E cx config result c)) = requests c"
    and "cache (snd (SetupCachedEndpoint E cx config result c)) (Path config)
           = Some \<lparr>Data = result, UpdatedAt = 0, Expiration = CacheConfig.Expiration config\<rparr>"
    and "maxDuration < clock c \<Longrightarrow> sint (CacheConfig.Expiration config) < maxDuration \<Longrightarrow>
         GetCached (Path config) (snd (SetupCachedEndpoint E cx config result c))
           = (Some result, Some (CacheExpired (Path config)))"
  using assms
  by (simp_all add: SetupCachedEndpoint_def Let_def scheduleUpdates_frame registerEntry_def
        GetCached_def Since_def Sub_def)

text \<open>
  Claim C5. After \<^verbatim>\<open>SetupCachedEndpoint\<close> with \<^verbatim>\<open>SkipInitialFetch\<close>,
  \<^verbatim>\<open>GetCached\<close> is to report the entry stale before any fetch. With the window set
  to the largest Duration the call succeeds on a valid cron spec, no request has been
  sent, the entry has the zero \<^verbatim>\<open>UpdatedAt\<close>, and \<^verbatim>\<open>GetCached\<close> returns the
  pointer with no error: \<^verbatim>\<open>GetCached\<close> has no test for the zero time.
\<close>

theorem Setup_skip_longest_window:
  "fst (SetupCachedEndpoint demoEnv (Caller 1)
          (testConfig ''* * * * *'' 9223372036854775807 True) 1 freshClient) = Return None
   \<and> requests (snd (SetupCachedEndpoint demoEnv (Caller 1)
          (testConfig ''* * * * *'' 9223372036854775807 True) 1 freshClient)) = []
   \<and> cache (snd (SetupCachedEndpoint demoEnv (Caller 1)
          (testConfig ''* * * * *'' 9223372036854775807 True) 1 freshClient)) ''/test''
       = Some \<lparr>Data = 1, UpdatedAt = 0, Expiration = 9223372036854775807\<rparr>
   \<and> GetCached ''/test'' (snd (SetupCachedEndpoint demoEnv (Caller 1)
          (testConfig ''* * * * *'' 9223372036854775807 True) 1 freshClient)) = (Some 1, None)"
  by (simp add: SetupCachedEndpoint_def registerEntry_def scheduleUpdates_def cronSchedule_def
        HasPrefix_def testConfig_def demoEnv_def freshClient_def NewCachedClient_def
        year2025_def maxDuration_def minDuration_def GetCached_def Since_def Sub_def)

subsection \<open>StopCacheUpdates and Stop\<close>

lemma StopCacheUpdates_unknown:
  "map_of (stopChans c) p = None \<Longrightarrow> StopCacheUpdates p c = (Return (), c)"
  by (simp add: StopCacheUpdates_def)

lemma StopCacheUpdates_frame:
  "cache (snd (StopCacheUpdates p c)) = cache c"
  "heap (snd (StopCacheUpdates p c)) = heap c"
  "clock (snd (StopCacheUpdates p c)) = clock c"
  "requests (snd (StopCacheUpdates p c)) = requests c"
  "tickTasks (snd (StopCacheUpdates p c)) = tickTasks c"
  "ticker (snd (StopCacheUpdates p c)) = ticker c"
  "cronEntries (snd (StopCacheUpdates p c)) = cronEntries c"
  "cronRunning (snd (StopCacheUpdates p c)) = cronRunning c"
  "nextChan (snd (StopCacheUpdates p c)) = nextChan c"
  by (simp_all add: StopCacheUpdates_def split: option.splits)

lemma StopCacheUpdates_GetCached:
  "GetCached q (snd (StopCacheUpdates p c)) = GetCached q c"
  by (simp add: GetCached_def Since_def StopCacheUpdates_frame split: option.splits)

lemma StopCacheUpdates_forgets:
  "map_of (stopChans (snd (StopCacheUpdates p c))) p = None
     \<or> fst (StopCacheUpdates p c) = Panic"
  by (simp add: StopCacheUpdates_def AList.delete_conv split: option.splits)

text \<open>A second \<^verbatim>\<open>StopCacheUpdates\<close> of the same path does nothing.\<close>

lemma StopCacheUpdates_twice:
  "fst (StopCacheUpdates p c) = Return () \<Longrightarrow>
     StopCacheUpdates p (snd (StopCacheUpdates p c)) = (Return (), snd (StopCacheUpdates p c))"
  using StopCacheUpdates_forgets [of p c] by (simp add: StopCacheUpdates_unknown)

lemma StopCacheUpdates_chanInv:
  assumes "chanInv c"
  shows "fst (StopCacheUpdates p c) = Return ()" and "chanInv (snd (StopCacheUpdates p c))"
proof -
  show "fst (StopCacheUpdates p c) = Return ()"
    using assms by (auto simp: StopCacheUpdates_def chanInv_def split: option.splits)
  show "chanInv (snd (StopCacheUpdates p c))"
  proof (cases "map_of (stopChans c) p")
    case None
    then show ?thesis using assms by (simp add: StopCacheUpdates_def)
  next
    case (Some ch)
    then have nc: "\<not> closed c ch" using assms by (simp add: chanInv_def)
    have c': "snd (StopCacheUpdates p c)
        = c\<lparr>closed := (closed c)(ch := True), stopChans := AList.delete p (stopChans c)\<rparr>"
      using Some nc by (simp add: StopCacheUpdates_def)
    show ?thesis
      unfolding c' using assms Some
      by (auto simp: chanInv_def AList.delete_conv split: if_splits)
  qed
qed

subsection \<open>Background events\<close>

lemma updateFunc_closed: "closed c (j_stop j) \<Longrightarrow> updateFunc E j c = c"
  by (simp add: updateFunc_def)

lemma updateFunc_frame:
  "closed (updateFunc E j c) = closed c"
  "stopChans (updateFunc E j c) = stopChans c"
  "tickTasks (updateFunc E j c) = tickTasks c"
  "cronEntries (updateFunc E j c) = cronEntries c"
  "cronRunning (updateFunc E j c) = cronRunning c"
  "nextChan (updateFunc E j c) = nextChan c"
  "ticker (updateFunc E j c) = ticker c"
  using updateCache_frame [of E BackgroundTimeout10s "j_path j" "j_result j" c]
  by (auto simp: updateFunc_def split: prod.splits option.splits)

lemma updateFunc_requests:
  "requests (updateFunc E j c) =
     (if closed c (j_stop j) then requests c
      else requests c @ [(BackgroundTimeout10s, j_path j)])"
  using updateCache_requests [of E BackgroundTimeout10s "j_path j" "j_result j" c]
  by (auto simp: updateFunc_def split: prod.splits option.splits)

lemma fire_frame:
  "closed (fire E ev c) = closed c"
  "stopChans (fire E ev c) = stopChans c"
  "nextChan (fire E ev c) = nextChan c"
  "cronRunning (fire E ev c) = cronRunning c"
  "jobs (fire E ev c) = jobs c"
  by (simp_all add: fire_def jobs_def updateFunc_frame map_update list_update_same_conv
        split: event.splits)

lemma fire_requestsFor:
  assumes "\<forall>j \<in> set (jobs c). j_path j = p \<longrightarrow> closed c (j_stop j)"
  shows "requestsFor p (fire E ev c) = requestsFor p c"
proof (cases ev)
  case (Tick i)
  show ?thesis
  proof (cases "i < length (tickTasks c) \<and> \<not> tk_exited (tickTasks c ! i)")
    case True
    then have "tk_job (tickTasks c ! i) \<in> set (jobs c)" by (simp add: jobs_def)
    then show ?thesis
      using assms Tick True by (auto simp: fire_def requestsFor_def updateFunc_requests)
  next
    case False
    then show ?thesis using Tick by (auto simp: fire_def)
  qed
next
  case (Cancel i)
  then show ?thesis by (simp add: fire_def requestsFor_def)
next
  case (CronRun k)
  show ?thesis
  proof (cases "cronRunning c \<and> k < length (cronEntries c)")
    case True
    then have "cronEntries c ! k \<in> set (jobs c)" by (simp add: jobs_def)
    then show ?thesis
      using assms CronRun True by (auto simp: fire_def requestsFor_def updateFunc_requests)
  next
    case False
    then show ?thesis using CronRun by (auto simp: fire_def)
  qed
next
  case (Wait d)
  then show ?thesis by (simp add: fire_def requestsFor_def)
qed

lemma background_requestsFor:
  assumes "\<forall>j \<in> set (jobs c). j_path j = p \<longrightarrow> closed c (j_stop j)"
  shows "requestsFor p (background E evs c) = requestsFor p c"
  using assms
proof (induction evs arbitrary: c)
  case Nil
  then show ?case by simp
next
  case (Cons ev evs)
  have "\<forall>j \<in> set (jobs (fire E ev c)). j_path j = p \<longrightarrow> closed (fire E ev c) (j_stop j)"
    using Cons.prems by (simp add: fire_frame)
  then show ?case
    using Cons.IH [of "fire E ev c"] fire_requestsFor [OF Cons.prems, of E ev] by simp
qed

subsection \<open>After StopCacheUpdates and Stop\<close>

lemma StopCacheUpdates_closes:
  assumes "chanInv c" and "reachableJobs c"
  shows "\<forall>j \<in> set (jobs (snd (StopCacheUpdates p c))).
           j_path j = p \<longrightarrow> closed (snd (StopCacheUpdates p c)) (j_stop j)"
proof (cases "map_of (stopChans c) p")
  case None
  then show ?thesis
    using assms(2) by (auto simp: StopCacheUpdates_def reachableJobs_def)
next
  case (Some ch)
  then have nc: "\<not> closed c ch" using assms(1) by (simp add: chanInv_def)
  have c': "snd (StopCacheUpdates p c)
      = c\<lparr>closed := (closed c)(ch := True), stopChans := AList.delete p (stopChans c)\<rparr>"
    using Some nc by (simp add: StopCacheUpdates_def)
  show ?thesis
    unfolding c' using assms(2) Some by (auto simp: reachableJobs_def jobs_def)
qed

text \<open>
  When every job can be reached through \<^verbatim>\<open>c.stopChans\<close> (no path was set up again
  while its channel was open), no background event after \<^verbatim>\<open>StopCacheUpdates\<close> sends
  a request for the path.
\<close>

lemma StopCacheUpdates_silences:
  assumes "chanInv c" and "reachableJobs c"
  shows "requestsFor p (background E evs (snd (StopCacheUpdates p c))) = requestsFor p c"
  using background_requestsFor [OF StopCacheUpdates_closes [OF assms, of p], of E evs]
  by (simp add: requestsFor_def StopCacheUpdates_frame)

lemma stopTickers_frame:
  "cache (stopTickers is c) = cache c"
  "heap (stopTickers is c) = heap c"
  "clock (stopTickers is c) = clock c"
  "requests (stopTickers is c) = requests c"
  "stopChans (stopTickers is c) = stopChans c"
  "closed (stopTickers is c) = closed c"
  "nextChan (stopTickers is c) = nextChan c"
  "cronEntries (stopTickers is c) = cronEntries c"
  "map tk_job (tickTasks (stopTickers is c)) = map tk_job (tickTasks c)"
  by (induction "is" arbitrary: c; simp add: tickerStop_def map_update list_update_same_conv)+

lemma stopAll_spec:
  assumes "chanInv c"
  shows "fst (stopAll ps c) = Return ()
       \<and> chanInv (snd (stopAll ps c))
       \<and> (\<forall>ch. closed c ch \<longrightarrow> closed (snd (stopAll ps c)) ch)
       \<and> (\<forall>p \<in> set ps. \<forall>ch. map_of (stopChans c) p = Some ch \<longrightarrow> closed (snd (stopAll ps c)) ch)
       \<and> (\<forall>q. map_of (stopChans (snd (stopAll ps c))) q
               = (if q \<in> set ps then None else map_of (stopChans c) q))
       \<and> cache (snd (stopAll ps c)) = cache c
       \<and> heap (snd (stopAll ps c)) = heap c
       \<and> clock (snd (stopAll ps c)) = clock c
       \<and> requests (snd (stopAll ps c)) = requests c
       \<and> tickTasks (snd (stopAll ps c)) = tickTasks c
       \<and> cronEntries (snd (stopAll ps c)) = cronEntries c"
  using assms
proof (induction ps arbitrary: c)
  case Nil
  then show ?case by simp
next
  case (Cons p ps)
  let ?c1 = "snd (StopCacheUpdates p c)"
  have r: "fst (StopCacheUpdates p c) = Return ()" and i: "chanInv ?c1"
    using StopCacheUpdates_chanInv [OF Cons.prems] by simp_all
  have s: "stopAll (p # ps) c = stopAll ps ?c1"
    using r by (cases "StopCacheUpdates p c") simp
  have m: "\<And>q. map_of (stopChans ?c1) q = (if q = p then None else map_of (stopChans c) q)"
    using Cons.prems
    by (auto simp: StopCacheUpdates_def chanInv_def AList.delete_conv split: option.splits)
  have cl: "\<And>ch. closed ?c1 ch \<longleftrightarrow> closed c ch \<or> map_of (stopChans c) p = Some ch"
    using Cons.prems by (auto simp: StopCacheUpdates_def chanInv_def split: option.splits)
  note ih = Cons.IH [OF i]
  have all: "\<forall>q \<in> set (p # ps). \<forall>ch. map_of (stopChans c) q = Some ch
      \<longrightarrow> closed (snd (stopAll ps ?c1)) ch"
  proof (intro ballI allI impI)
    fix q ch
    assume q: "q \<in> set (p # ps)" and mq: "map_of (stopChans c) q = Some ch"
    show "closed (snd (stopAll ps ?c1)) ch"
    proof (cases "q = p")
      case True
      then have "closed ?c1 ch" using mq by (simp add: cl)
      then show ?thesis using ih by simp
    next
      case False
      then have "q \<in> set ps" and "map_of (stopChans ?c1) q = Some ch"
        using q mq by (simp_all add: m)
      then show ?thesis using ih by blast
    qed
  qed
  have mono: "\<forall>ch. closed c ch \<longrightarrow> closed (snd (stopAll ps ?c1)) ch"
    using ih by (simp add: cl)
  have rest: "\<forall>q. map_of (stopChans (snd (stopAll ps ?c1))) q
               = (if q \<in> set (p # ps) then None else map_of (stopChans c) q)"
    using ih by (simp add: m)
  show ?case
    unfolding s using ih all mono rest
    by (simp add: StopCacheUpdates_frame)
qed

text \<open>
  Under the same condition \<^verbatim>\<open>Stop\<close> returns, leaves no channel in the map, has closed
  the channel of every job and stopped the cron scheduler, has sent no request and has
  not touched the cache; and no background event after it changes the requests or the
  cache.
\<close>

lemma Stop_spec:
  assumes "chanInv c" and "reachableJobs c"
  shows "fst (Stop c) = Return ()"
    and "\<forall>j \<in> set (jobs (snd (Stop c))). closed (snd (Stop c)) (j_stop j)"
    and "\<not> cronRunning (snd (Stop c))"
    and "\<forall>q. map_of (stopChans (snd (Stop c))) q = None"
    and "requests (snd (Stop c)) = requests c"
    and "cache (snd (Stop c)) = cache c"
    and "heap (snd (Stop c)) = heap c"
    and "clock (snd (Stop c)) = clock c"
proof -
  let ?c1 = "stopTickers (map snd (ticker c)) c"
  let ?ps = "map fst (stopChans ?c1)"
  have i1: "chanInv ?c1" using assms(1) by (simp add: chanInv_def stopTickers_frame)
  note sp = stopAll_spec [OF i1, of ?ps]
  have r: "fst (stopAll ?ps ?c1) = Return ()" using sp by simp
  have S: "Stop c = (Return (), (snd (stopAll ?ps ?c1))\<lparr>cronRunning := False\<rparr>)"
    using r by (cases "stopAll ?ps ?c1") (simp add: Stop_def Let_def)
  show "fst (Stop c) = Return ()" by (simp add: S)
  show "\<not> cronRunning (snd (Stop c))" by (simp add: S)
  show "requests (snd (Stop c)) = requests c" using sp by (simp add: S stopTickers_frame)
  show "cache (snd (Stop c)) = cache c" using sp by (simp add: S stopTickers_frame)
  show "heap (snd (Stop c)) = heap c" using sp by (simp add: S stopTickers_frame)
  show "clock (snd (Stop c)) = clock c" using sp by (simp add: S stopTickers_frame)
  have keys: "\<And>q. q \<notin> set ?ps \<Longrightarrow> map_of (stopChans ?c1) q = None"
    by (simp add: map_of_eq_None_iff)
  show "\<forall>q. map_of (stopChans (snd (Stop c))) q = None"
    using sp keys by (auto simp: S)
  have jb: "jobs (snd (Stop c)) = jobs c"
    using sp by (simp add: S jobs_def stopTickers_frame)
  show "\<forall>j \<in> set (jobs (snd (Stop c))). closed (snd (Stop c)) (j_stop j)"
  proof
    fix j assume "j \<in> set (jobs (snd (Stop c)))"
    then have "j \<in> set (jobs c)" by (simp add: jb)
    then consider "closed c (j_stop j)" | "map_of (stopChans c) (j_path j) = Some (j_stop j)"
      using assms(2) by (auto simp: reachableJobs_def)
    then show "closed (snd (Stop c)) (j_stop j)"
    proof cases
      case 1
      then show ?thesis using sp by (simp add: S stopTickers_frame)
    next
      case 2
      then have "j_path j \<in> set ?ps"
        by (metis keys option.distinct(1) stopTickers_frame(5))
      then show ?thesis using sp 2 by (auto simp: S stopTickers_frame)
    qed
  qed
qed

lemma fire_all_closed:
  assumes "\<forall>j \<in> set (jobs c). closed c (j_stop j)"
  shows "requests (fire E ev c) = requests c" and "cache (fire E ev c) = cache c"
    and "heap (fire E ev c) = heap c"
proof -
  have t: "\<And>i. i < length (tickTasks c) \<Longrightarrow> closed c (j_stop (tk_job (tickTasks c ! i)))"
    using assms by (simp add: jobs_def)
  have k: "\<And>k. k < length (cronEntries c) \<Longrightarrow> closed c (j_stop (cronEntries c ! k))"
    using assms by (simp add: jobs_def)
  show "requests (fire E ev c) = requests c" and "cache (fire E ev c) = cache c"
    and "heap (fire E ev c) = heap c"
    using t k by (auto simp: fire_def updateFunc_closed split: event.splits)
qed

lemma background_all_closed:
  assumes "\<forall>j \<in> set (jobs c). closed c (j_stop j)"
  shows "requests (background E evs c) = requests c \<and> cache (background E evs c) = cache c
         \<and> heap (background E evs c) = heap c"
  using assms
proof (induction evs arbitrary: c)
  case Nil
  then show ?case by simp
next
  case (Cons ev evs)
  have "\<forall>j \<in> set (jobs (fire E ev c)). closed (fire E ev c) (j_stop j)"
    using Cons.prems by (simp add: fire_frame)
  then show ?case
    using Cons.IH [of "fire E ev c"] fire_all_closed [OF Cons.prems, of E ev] by simp
qed

lemma Stop_silences:
  assumes "chanInv c" and "reachableJobs c"
  shows "requests (background E evs (snd (Stop c))) = requests c"
    and "cache (background E evs (snd (Stop c))) = cache c"
    and "heap (background E evs (snd (Stop c))) = heap c"
  using background_all_closed [OF Stop_spec(2) [OF assms], of E evs] Stop_spec(5-7) [OF assms]
  by simp_all

lemma GetCached_value: "fst (GetCached p c) = map_option Data (cache c p)"
  by (simp add: GetCached_def split: option.splits)

subsection \<open>Where the invariants hold\<close>

lemma NewCachedClient_invariants:
  "chanInv (NewCachedClient h t)" "reachableJobs (NewCachedClient h t)"
  by (simp_all add: chanInv_def reachableJobs_def jobs_def NewCachedClient_def)

lemma registerEntry_chanInv:
  assumes "chanInv c"
  shows "chanInv (registerEntry config result c)"
  unfolding chanInv_def registerEntry_def
  using assms by (auto simp: chanInv_def AList.update_conv less_Suc_eq split: if_splits)

lemma scheduleUpdates_stop_frame:
  "stopChans (snd (scheduleUpdates E spec j c)) = stopChans c"
  "closed (snd (scheduleUpdates E spec j c)) = closed c"
  "nextChan (snd (scheduleUpdates E spec j c)) = nextChan c"
  by (simp_all add: scheduleUpdates_def cronSchedule_def split: option.splits)

lemma scheduleUpdates_jobs:
  "set (jobs (snd (scheduleUpdates E spec j c))) \<subseteq> insert j (set (jobs c))"
  by (auto simp: scheduleUpdates_def cronSchedule_def jobs_def split: option.splits)

lemma Setup_cases:
  obtains x c3 where "updateCache E cx (Path config) result (registerEntry config result c) = (x, c3)"
      and "snd (SetupCachedEndpoint E cx config result c) = c3"
  | x c3 where "updateCache E cx (Path config) result (registerEntry config result c) = (x, c3)"
      and "snd (SetupCachedEndpoint E cx config result c)
             = snd (scheduleUpdates E (CronSpec config)
                 \<lparr>j_stop = nextChan c, j_path = Path config, j_result = result\<rparr> c3)"
  | "snd (SetupCachedEndpoint E cx config result c)
       = snd (scheduleUpdates E (CronSpec config)
           \<lparr>j_stop = nextChan c, j_path = Path config, j_result = result\<rparr>
           (registerEntry config result c))"
proof -
  obtain x c3 where u: "updateCache E cx (Path config) result (registerEntry config result c) = (x, c3)"
    by (cases "updateCache E cx (Path config) result (registerEntry config result c)")
  show ?thesis
  proof (cases "SkipInitialFetch config")
    case True
    then have "snd (SetupCachedEndpoint E cx config result c)
       = snd (scheduleUpdates E (CronSpec config)
           \<lparr>j_stop = nextChan c, j_path = Path config, j_result = result\<rparr>
           (registerEntry config result c))"
      by (simp add: SetupCachedEndpoint_def Let_def)
    then show ?thesis by (rule that(3))
  next
    case False
    show ?thesis
    proof (cases x)
      case None
      then have "snd (SetupCachedEndpoint E cx config result c)
             = snd (scheduleUpdates E (CronSpec config)
                 \<lparr>j_stop = nextChan c, j_path = Path config, j_result = result\<rparr> c3)"
        using False u by (simp add: SetupCachedEndpoint_def Let_def)
      then show ?thesis using u by (rule that(2) [rotated])
    next
      case (Some err)
      then have "snd (SetupCachedEndpoint E cx config result c) = c3"
        using False u by (simp add: SetupCachedEndpoint_def Let_def)
      then show ?thesis using u by (rule that(1) [rotated])
    qed
  qed
qed

lemma Setup_stop_state:
  "stopChans (snd (SetupCachedEndpoint E cx config result c))
     = AList.update (Path config) (nextChan c) (stopChans c)"
  "closed (snd (SetupCachedEndpoint E cx config result c)) = closed c"
  "nextChan (snd (SetupCachedEndpoint E cx config result c)) = Suc (nextChan c)"
  "set (jobs (snd (SetupCachedEndpoint E cx config result c)))
     \<subseteq> insert \<lparr>j_stop = nextChan c, j_path = Path config, j_result = result\<rparr> (set (jobs c))"
proof -
  let ?c2 = "registerEntry config result c"
  let ?j = "\<lparr>j_stop = nextChan c, j_path = Path config, j_result = result\<rparr>"
  let ?c' = "snd (SetupCachedEndpoint E cx config result c)"
  have r2: "stopChans ?c2 = AList.update (Path config) (nextChan c) (stopChans c)"
    "closed ?c2 = closed c" "nextChan ?c2 = Suc (nextChan c)" "jobs ?c2 = jobs c"
    by (simp_all add: registerEntry_def jobs_def)
  have "stopChans ?c' = AList.update (Path config) (nextChan c) (stopChans c)
      \<and> closed ?c' = closed c \<and> nextChan ?c' = Suc (nextChan c)
      \<and> set (jobs ?c') \<subseteq> insert ?j (set (jobs c))"
  proof (cases rule: Setup_cases [of E cx config result c])
    case (1 x c3)
    note f = updateCache_frameD [OF 1(1)]
    have "jobs c3 = jobs ?c2" using f by (simp add: jobs_def)
    then show ?thesis using 1(2) f r2 by auto
  next
    case (2 x c3)
    note f = updateCache_frameD [OF 2(1)]
    have "jobs c3 = jobs c" using f r2 by (simp add: jobs_def)
    then show ?thesis
      using 2(2) f r2 scheduleUpdates_jobs [of E "CronSpec config" ?j c3]
      by (simp add: scheduleUpdates_stop_frame)
  next
    case 3
    then show ?thesis
      using r2 scheduleUpdates_jobs [of E "CronSpec config" ?j ?c2]
      by (simp add: scheduleUpdates_stop_frame)
  qed
  then show "stopChans ?c' = AList.update (Path config) (nextChan c) (stopChans c)"
    and "closed ?c' = closed c" and "nextChan ?c' = Suc (nextChan c)"
    and "set (jobs ?c') \<subseteq> insert ?j (set (jobs c))"
    by simp_all
qed

text \<open>
  \<^verbatim>\<open>SetupCachedEndpoint\<close> keeps \<open>chanInv\<close>; it keeps \<open>reachableJobs\<close> when the path
  has no channel in \<^verbatim>\<open>c.stopChans\<close>, that is when the path is new or was stopped.
\<close>

lemma Setup_invariants:
  assumes "chanInv c"
  shows "chanInv (snd (SetupCachedEndpoint E cx config result c))"
    and "reachableJobs c \<Longrightarrow> map_of (stopChans c) (Path config) = None \<Longrightarrow>
         reachableJobs (snd (SetupCachedEndpoint E cx config result c))"
proof -
  let ?c' = "snd (SetupCachedEndpoint E cx config result c)"
  have m: "\<And>q. map_of (stopChans ?c') q
      = (if q = Path config then Some (nextChan c) else map_of (stopChans c) q)"
    by (simp add: Setup_stop_state AList.update_conv)
  have lt: "\<And>q ch. map_of (stopChans c) q = Some ch \<Longrightarrow> ch < nextChan c \<and> \<not> closed c ch"
    using assms by (simp add: chanInv_def)
  have cl: "\<And>ch. closed c ch \<Longrightarrow> ch < nextChan c"
    using assms by (simp add: chanInv_def)
  have inj: "\<And>p q ch. map_of (stopChans c) p = Some ch \<Longrightarrow> map_of (stopChans c) q = Some ch
      \<Longrightarrow> q = p"
    using assms by (simp add: chanInv_def)
  show "chanInv ?c'"
    unfolding chanInv_def
  proof (intro conjI allI impI)
    fix ch assume "closed ?c' ch"
    then show "ch < nextChan ?c'" using cl [of ch] by (simp add: Setup_stop_state)
  next
    fix p ch assume a: "map_of (stopChans ?c') p = Some ch"
    show "\<not> closed ?c' ch"
      using a lt [of p ch] cl [of "nextChan c"]
      by (auto simp: m Setup_stop_state(2) split: if_splits)
    show "ch < nextChan ?c'"
      using a lt [of p ch] by (auto simp: m Setup_stop_state(3) split: if_splits)
    fix q assume b: "map_of (stopChans ?c') q = Some ch"
    show "q = p"
    proof (cases "p = Path config")
      case True
      then have ch: "ch = nextChan c" using a by (simp add: m)
      show ?thesis
      proof (cases "q = Path config")
        case True
        then show ?thesis using \<open>p = Path config\<close> by simp
      next
        case False
        then have "map_of (stopChans c) q = Some (nextChan c)" using b ch by (simp add: m)
        then show ?thesis using lt [of q "nextChan c"] by simp
      qed
    next
      case False
      then have ap: "map_of (stopChans c) p = Some ch" using a by (simp add: m)
      show ?thesis
      proof (cases "q = Path config")
        case True
        then have "ch = nextChan c" using b by (simp add: m)
        then show ?thesis using lt [OF ap] by simp
      next
        case False
        then have "map_of (stopChans c) q = Some ch" using b by (simp add: m)
        then show ?thesis using inj [OF ap] by simp
      qed
    qed
  qed
  assume r: "reachableJobs c" and n: "map_of (stopChans c) (Path config) = None"
  show "reachableJobs ?c'"
    unfolding reachableJobs_def
  proof
    fix j assume "j \<in> set (jobs ?c')"
    then consider "j = \<lparr>j_stop = nextChan c, j_path = Path config, j_result = result\<rparr>"
      | "j \<in> set (jobs c)"
      using Setup_stop_state(4) [of E cx config result c] by auto
    then show "closed ?c' (j_stop j) \<or> map_of (stopChans ?c') (j_path j) = Some (j_stop j)"
    proof cases
      case 1
      then show ?thesis by (simp add: m)
    next
      case 2
      then have "closed c (j_stop j) \<or> map_of (stopChans c) (j_path j) = Some (j_stop j)"
        using r by (simp add: reachableJobs_def)
      then show ?thesis
        using n by (auto simp: m Setup_stop_state(2))
    qed
  qed
qed

text \<open>The other operations keep both invariants.\<close>

lemma StopCacheUpdates_reachable:
  assumes "chanInv c" and "reachableJobs c"
  shows "reachableJobs (snd (StopCacheUpdates p c))"
proof (cases "map_of (stopChans c) p")
  case None
  then show ?thesis using assms(2) by (simp add: StopCacheUpdates_def)
next
  case (Some ch)
  then have nc: "\<not> closed c ch" using assms(1) by (simp add: chanInv_def)
  have c': "snd (StopCacheUpdates p c)
      = c\<lparr>closed := (closed c)(ch := True), stopChans := AList.delete p (stopChans c)\<rparr>"
    using Some nc by (simp add: StopCacheUpdates_def)
  show ?thesis
    unfolding c' using assms(2) Some
    by (auto simp: reachableJobs_def jobs_def AList.delete_conv)
qed

lemma fire_invariants:
  "chanInv c \<Longrightarrow> chanInv (fire E ev c)"
  "reachableJobs c \<Longrightarrow> reachableJobs (fire E ev c)"
  by (simp_all add: chanInv_def reachableJobs_def fire_frame)

lemma GetCachedOrFetch_invariants:
  "chanInv c \<Longrightarrow> chanInv (snd (GetCachedOrFetch E cx p c))"
  "reachableJobs c \<Longrightarrow> reachableJobs (snd (GetCachedOrFetch E cx p c))"
proof -
  have f: "stopChans (snd (GetCachedOrFetch E cx p c)) = stopChans c
      \<and> closed (snd (GetCachedOrFetch E cx p c)) = closed c
      \<and> nextChan (snd (GetCachedOrFetch E cx p c)) = nextChan c
      \<and> jobs (snd (GetCachedOrFetch E cx p c)) = jobs c"
  proof (cases "cache c p")
    case None
    then show ?thesis by (simp add: GetCachedOrFetch_def)
  next
    case (Some entry)
    obtain x c' where u: "updateCache E cx p (Data entry) c = (x, c')"
      by (cases "updateCache E cx p (Data entry) c")
    have "snd (GetCachedOrFetch E cx p c) = c \<or> snd (GetCachedOrFetch E cx p c) = c'"
      using Some u by (simp add: GetCachedOrFetch_def split: option.splits)
    then show ?thesis using updateCache_frameD [OF u] by (auto simp: jobs_def)
  qed
  show "chanInv c \<Longrightarrow> chanInv (snd (GetCachedOrFetch E cx p c))"
    using f by (simp add: chanInv_def)
  show "reachableJobs c \<Longrightarrow> reachableJobs (snd (GetCachedOrFetch E cx p c))"
    using f by (simp add: reachableJobs_def)
qed

text \<open>
  So on a client where each path was set up once, \<^verbatim>\<open>Stop\<close> ends every background
  refresh: here for a new client and one \<^verbatim>\<open>SetupCachedEndpoint\<close>.
\<close>

lemma single_registration_Stop:
  "requests (background E evs
      (snd (Stop (snd (SetupCachedEndpoint E cx config result (NewCachedClient h t))))))
     = requests (snd (SetupCachedEndpoint E cx config result (NewCachedClient h t)))"
proof -
  let ?c = "snd (SetupCachedEndpoint E cx config result (NewCachedClient h t))"
  have n: "map_of (stopChans (NewCachedClient h t)) (Path config) = None"
    by (simp add: NewCachedClient_def)
  have i0: "chanInv (NewCachedClient h t)" by (rule NewCachedClient_invariants(1))
  have r0: "reachableJobs (NewCachedClient h t)" by (rule NewCachedClient_invariants(2))
  have "chanInv ?c" by (rule Setup_invariants(1) [OF i0])
  moreover have "reachableJobs ?c" by (rule Setup_invariants(2) [OF i0 r0 n])
  ultimately show ?thesis by (rule Stop_silences(1))
qed


subsection \<open>Stopping a path that was set up twice\<close>

text \<open>
  The second \<^verbatim>\<open>SetupCachedEndpoint\<close> for a path overwrites the channel and the ticker
  that the first one stored under it; the first ticker, its goroutine and its channel
  stay as they are, and nothing in the client refers to them any more.
\<close>

lemma twiceRegistered_eval:
  "twiceRegistered =
     \<lparr>cache = [''/test'' \<mapsto> \<lparr>Data = 1, UpdatedAt = 0, Expiration = 60000000000\<rparr>],
      stopChans = [(''/test'', 1)], ticker = [(''/test'', 1)], cronEntries = [],
      cronRunning = False, heap = (\<lambda>_. 0), nextChan = 2, closed = (\<lambda>_. False),
      tickTasks =
        [\<lparr>tk_period = 30000000000, tk_stopped = False, tk_exited = False,
          tk_job = \<lparr>j_stop = 0, j_path = ''/test'', j_result = 1\<rparr>\<rparr>,
         \<lparr>tk_period = 30000000000, tk_stopped = False, tk_exited = False,
          tk_job = \<lparr>j_stop = 1, j_path = ''/test'', j_result = 1\<rparr>\<rparr>],
      clock = year2025, requests = [], printed = []\<rparr>"
  by (simp add: twiceRegistered_def every30s_def testConfig_def SetupCachedEndpoint_def
        registerEntry_def scheduleUpdates_def HasPrefix_def TrimPrefix_def Minute_def
        demoEnv_def freshClient_def NewCachedClient_def)

text \<open>
  Claim C8. After \<^verbatim>\<open>StopCacheUpdates\<close> no scheduled trigger is to cause a request
  for the key. On the client set up twice for \<^verbatim>\<open>"/test"\<close>,
  \<^verbatim>\<open>StopCacheUpdates("/test")\<close> closes the channel of the second registration only:
  a tick of the second ticker does nothing, a tick of the first one sends a request.
\<close>

theorem StopCacheUpdates_earlier_registration_runs_on:
  "fst (StopCacheUpdates ''/test'' twiceRegistered) = Return ()
   \<and> stopChans (snd (StopCacheUpdates ''/test'' twiceRegistered)) = []
   \<and> requests (snd (StopCacheUpdates ''/test'' twiceRegistered)) = []
   \<and> requests (fire demoEnv (Tick 1) (snd (StopCacheUpdates ''/test'' twiceRegistered))) = []
   \<and> requests (fire demoEnv (Tick 0) (snd (StopCacheUpdates ''/test'' twiceRegistered)))
        = [(BackgroundTimeout10s, ''/test'')]"
  by (simp add: twiceRegistered_eval StopCacheUpdates_def fire_def updateFunc_def
        updateCache_def storeResult_def demoEnv_def)

text \<open>
  Claim C9. After \<^verbatim>\<open>Stop\<close> no background refresh is to run again, and every ticker
  is to be stopped. On the client set up twice for \<^verbatim>\<open>"/test"\<close>, \<^verbatim>\<open>Stop\<close>
  returns with the first ticker still running and its channel open, and every later tick
  of that ticker sends a request.
\<close>

theorem Stop_earlier_registration_runs_on:
  "fst (Stop twiceRegistered) = Return ()
   \<and> stopChans (snd (Stop twiceRegistered)) = []
   \<and> cronRunning (snd (Stop twiceRegistered)) = False
   \<and> map tk_stopped (tickTasks (snd (Stop twiceRegistered))) = [False, True]
   \<and> map (\<lambda>t. closed (snd (Stop twiceRegistered)) (j_stop (tk_job t)))
        (tickTasks (snd (Stop twiceRegistered))) = [False, True]
   \<and> requests (snd (Stop twiceRegistered)) = []
   \<and> requests (background demoEnv [Tick 0, Wait 30000000000, Tick 0] (snd (Stop twiceRegistered)))
        = [(BackgroundTimeout10s, ''/test''), (BackgroundTimeout10s, ''/test'')]"
  by (simp add: twiceRegistered_eval Stop_def StopCacheUpdates_def tickerStop_def fire_def
        updateFunc_def updateCache_def storeResult_def demoEnv_def)

subsection \<open>Concurrent calls of GetCachedOrFetch\<close>








text \<open>The two steps of one call, taken one after the other, are the sequential function.\<close>

lemma steps_are_GetCachedOrFetch:
  "interleave E [0, 0] (c, [Entered cx p])
     = (snd (GetCachedOrFetch E cx p c), [Returned (fst (GetCachedOrFetch E cx p c))])"
  by (simp add: callStep_def Let_def enter_def refresh_def GetCachedOrFetch_def
        split: option.splits prod.splits)























end
